theory Spec2Isabelle
  imports Complex_Main
begin

section \<open>Restaurant-ETL: the menu parsing pipeline\<close>

text \<open>
  A shallow embedding of \<^verbatim>\<open>restaurant_etl/parsers/llm_parser.py\<close> and
  \<^verbatim>\<open>restaurant_etl/models/menu_models.py\<close>.

  Conventions of the embedding:
  \<^item> A Python \<^verbatim>\<open>str\<close> is a sequence of Unicode code points, and \<^verbatim>\<open>len\<close> counts
    code points, so a string is a list of code points (natural numbers).
  \<^item> A Python \<^verbatim>\<open>float\<close> that holds a price is a rational number: the embedding covers
    the finite numbers a JSON document can carry and compares them exactly.
  \<^item> An exception is a value: a constructor returns \<open>Inl\<close> of the error or \<open>Inr\<close> of
    the object.
  \<^item> Logging is not modelled. The two effects of the retry loop, the call of the
    extraction service and \<^verbatim>\<open>time.sleep\<close>, are recorded in a trace of events.
\<close>

subsection \<open>Strings\<close>

type_synonym codepoint = nat
type_synonym pystr = "codepoint list"

text \<open>A string literal of the source, as code points.\<close>

definition lit :: "string \<Rightarrow> pystr" where
  "lit s = map of_char s"

text \<open>
  The code points for which \<^verbatim>\<open>str.isspace\<close> holds; \<^verbatim>\<open>str.strip()\<close> and
  \<^verbatim>\<open>str.split()\<close> without arguments remove exactly these.
\<close>

definition is_space :: "codepoint \<Rightarrow> bool" where
  "is_space c =
     ((9 \<le> c \<and> c \<le> 13) \<or> (28 \<le> c \<and> c \<le> 32) \<or> c = 133 \<or> c = 160 \<or> c = 5760 \<or>
      (8192 \<le> c \<and> c \<le> 8202) \<or> c = 8232 \<or> c = 8233 \<or> c = 8239 \<or> c = 8287 \<or>
      c = 12288)"

text \<open>\<^verbatim>\<open>s.strip()\<close>: leading and trailing whitespace removed.\<close>

definition strip :: "pystr \<Rightarrow> pystr" where
  "strip s = rev (dropWhile is_space (rev (dropWhile is_space s)))"

text \<open>
  \<^verbatim>\<open>s.split()\<close>: the maximal runs of non-whitespace, in order. \<open>cur\<close> is the run being
  read.
\<close>

fun split_run :: "pystr \<Rightarrow> pystr \<Rightarrow> pystr list" where
  "split_run cur [] = (if cur = [] then [] else [cur])"
| "split_run cur (c # cs) =
     (if is_space c then (if cur = [] then split_run [] cs else cur # split_run [] cs)
      else split_run (cur @ [c]) cs)"

definition split :: "pystr \<Rightarrow> pystr list" where
  "split s = split_run [] s"

text \<open>\<^verbatim>\<open>sep.join(parts)\<close>.\<close>

fun join :: "pystr \<Rightarrow> pystr list \<Rightarrow> pystr" where
  "join sep [] = []"
| "join sep [p] = p"
| "join sep (p # q # ps) = p @ sep @ join sep (q # ps)"

text \<open>
  \<^verbatim>\<open>text[start:end]\<close> for \<open>0 \<le> start \<le> end\<close>; Python clamps both bounds to the length,
  as \<open>take\<close> and \<open>drop\<close> do.
\<close>

definition slice :: "'a list \<Rightarrow> nat \<Rightarrow> nat \<Rightarrow> 'a list" where
  "slice xs start end = take (end - start) (drop start xs)"

subsection \<open>The chunker: \<^verbatim>\<open>LLMMenuParser._chunk_text\<close>\<close>

definition max_chars :: nat where
  "max_chars = 2000"

text \<open>
  The \<^verbatim>\<open>while start < len(text)\<close> loop: \<open>chunks\<close> is the list built so far. Each slice
  is stripped before it is appended.
\<close>

function chunk_loop :: "pystr \<Rightarrow> nat \<Rightarrow> pystr list \<Rightarrow> pystr list" where
  "chunk_loop text start chunks =
     (if start < length text then
        (let end = min (start + max_chars) (length text);
             chunk = slice text start end
         in chunk_loop text end (chunks @ [strip chunk]))
      else chunks)"
  by pat_completeness auto
termination
  by (relation "measure (\<lambda>(text, start, chunks). length text - start)")
     (auto simp: max_chars_def)

declare chunk_loop.simps [simp del]

definition chunk_text :: "pystr \<Rightarrow> pystr list" where
  "chunk_text text =
     (if length text \<le> max_chars then [text] else chunk_loop text 0 [])"

text \<open>
  The untrimmed segments: the slices the loop cuts, before \<^verbatim>\<open>strip\<close> is applied to
  them. This is the loop above with the call of \<^verbatim>\<open>strip\<close> left out; for a short text
  the only segment is the text.
\<close>

function segment_loop :: "pystr \<Rightarrow> nat \<Rightarrow> pystr list \<Rightarrow> pystr list" where
  "segment_loop text start segs =
     (if start < length text then
        (let end = min (start + max_chars) (length text);
             chunk = slice text start end
         in segment_loop text end (segs @ [chunk]))
      else segs)"
  by pat_completeness auto
termination
  by (relation "measure (\<lambda>(text, start, segs). length text - start)")
     (auto simp: max_chars_def)

declare segment_loop.simps [simp del]

definition segments :: "pystr \<Rightarrow> pystr list" where
  "segments text =
     (if length text \<le> max_chars then [text] else segment_loop text 0 [])"

subsection \<open>Python truthiness\<close>

text \<open>
  \<^verbatim>\<open>a or b\<close> is \<open>a\<close> when \<open>a\<close> is truthy and \<open>b\<close> otherwise. An optional float is
  truthy when it is neither \<^verbatim>\<open>None\<close> nor zero; an optional string when it is neither
  \<^verbatim>\<open>None\<close> nor empty.
\<close>

definition truthy :: "rat option \<Rightarrow> bool" where
  "truthy v = (case v of None \<Rightarrow> False | Some x \<Rightarrow> x \<noteq> 0)"

definition py_or :: "rat option \<Rightarrow> rat option \<Rightarrow> rat option" where
  "py_or a b = (if truthy a then a else b)"

definition str_or :: "pystr option \<Rightarrow> pystr \<Rightarrow> pystr" where
  "str_or a b = (case a of None \<Rightarrow> b | Some s \<Rightarrow> if s = [] then b else s)"

subsection \<open>Errors\<close>

text \<open>
  The exceptions the modelled code can raise outside the extraction call: a pydantic
  \<^verbatim>\<open>ValidationError\<close> (with the failing fields, in field order) and Python's
  \<^verbatim>\<open>ZeroDivisionError\<close>.
\<close>

datatype error = ValidationError "string list" | ZeroDivisionError

subsection \<open>\<^verbatim>\<open>MenuItem\<close>\<close>

text \<open>
  A raw record of the extraction response. \<^verbatim>\<open>_call_llm\<close> returns only data that has
  passed \<^verbatim>\<open>validate(instance=data, schema=MENU_JSON_SCHEMA["schema"])\<close>, so every
  element of its \<^verbatim>\<open>items\<close> has exactly the schema's properties: a string
  \<^verbatim>\<open>item_name\<close>, and nine more that are each null (or absent) or of the listed type.
\<close>

record raw_item =
  raw_item_name :: pystr
  raw_category :: "pystr option"
  raw_description :: "pystr option"
  raw_price :: "rat option"
  raw_half_plate_price :: "rat option"
  raw_full_plate_price :: "rat option"
  raw_small_price :: "rat option"
  raw_medium_price :: "rat option"
  raw_large_price :: "rat option"
  raw_price_display :: "pystr option"

record MenuItem =
  item_name :: pystr
  category :: "pystr option"
  description :: "pystr option"
  price :: "rat option"
  half_plate_price :: "rat option"
  full_plate_price :: "rat option"
  small_price :: "rat option"
  medium_price :: "rat option"
  large_price :: "rat option"
  currency :: "pystr option"
  spice_level :: "pystr option"
  dietary_tags :: "pystr list"

text \<open>\<^verbatim>\<open>clean_name\<close>: \<^verbatim>\<open>' '.join(v.split())\<close>, then \<^verbatim>\<open>strip\<close>.\<close>

definition clean_name :: "pystr \<Rightarrow> pystr" where
  "clean_name v = strip (join (lit '' '') (split v))"

text \<open>
  The field \<^verbatim>\<open>item_name\<close>: \<^verbatim>\<open>min_length=2\<close> is a constraint of the field and is
  checked on the string as given; \<^verbatim>\<open>clean_name\<close> is an after-validator and runs
  on a string that passed.
\<close>

definition item_name_field :: "pystr \<Rightarrow> string + pystr" where
  "item_name_field v =
     (if length v < 2 then Inl ''string_too_short'' else Inr (clean_name v))"

text \<open>\<^verbatim>\<open>validate_price\<close>, the validator of the six price fields.\<close>

definition validate_price :: "rat option \<Rightarrow> string + rat option" where
  "validate_price v =
     (case v of
        None \<Rightarrow> Inr v
      | Some x \<Rightarrow>
          if x < 0 then Inl ''Price cannot be negative''
          else if x > 100000 then Inl ''Price seems unreasonably high''
          else Inr v)"

text \<open>
  A price field: \<^verbatim>\<open>Optional[float]\<close> with \<^verbatim>\<open>ge=0\<close>, then \<^verbatim>\<open>validate_price\<close>.
\<close>

definition price_field :: "rat option \<Rightarrow> string + rat option" where
  "price_field v =
     (case v of
        None \<Rightarrow> validate_price v
      | Some x \<Rightarrow> if 0 \<le> x then validate_price v else Inl ''greater_than_equal'')"

definition field_errors :: "string \<Rightarrow> string + 'a \<Rightarrow> string list" where
  "field_errors name r = (case r of Inl msg \<Rightarrow> [name] | Inr v \<Rightarrow> [])"

text \<open>
  \<^verbatim>\<open>MenuItem(**item)\<close> for a raw record. pydantic validates every field and raises
  one \<^verbatim>\<open>ValidationError\<close> when any of them failed. \<^verbatim>\<open>price_display\<close> is not a field of
  the model and is ignored; \<^verbatim>\<open>currency\<close>, \<^verbatim>\<open>spice_level\<close> and \<^verbatim>\<open>dietary_tags\<close> are
  not properties of the schema and take their defaults.
\<close>

definition MenuItem_init :: "raw_item \<Rightarrow> error + MenuItem" where
  "MenuItem_init raw =
     (let n = item_name_field (raw_item_name raw);
          p = price_field (raw_price raw);
          h = price_field (raw_half_plate_price raw);
          f = price_field (raw_full_plate_price raw);
          s = price_field (raw_small_price raw);
          m = price_field (raw_medium_price raw);
          l = price_field (raw_large_price raw)
      in case (n, p, h, f, s, m, l) of
           (Inr n', Inr p', Inr h', Inr f', Inr s', Inr m', Inr l') \<Rightarrow>
             Inr \<lparr>item_name = n', category = raw_category raw,
                  description = raw_description raw, price = p',
                  half_plate_price = h', full_plate_price = f', small_price = s',
                  medium_price = m', large_price = l', currency = None,
                  spice_level = None, dietary_tags = []\<rparr>
         | _ \<Rightarrow>
             Inl (ValidationError
                   (field_errors ''item_name'' n @ field_errors ''price'' p @
                    field_errors ''half_plate_price'' h @
                    field_errors ''full_plate_price'' f @
                    field_errors ''small_price'' s @ field_errors ''medium_price'' m @
                    field_errors ''large_price'' l)))"

definition has_any_price :: "MenuItem \<Rightarrow> bool" where
  "has_any_price self =
     (price self \<noteq> None \<or> half_plate_price self \<noteq> None \<or>
      full_plate_price self \<noteq> None \<or> small_price self \<noteq> None \<or>
      medium_price self \<noteq> None \<or> large_price self \<noteq> None)"

definition get_primary_price :: "MenuItem \<Rightarrow> rat option" where
  "get_primary_price self =
     py_or (py_or (py_or (py_or (py_or (price self) (full_plate_price self))
       (half_plate_price self)) (large_price self)) (medium_price self))
       (small_price self)"

text \<open>The six price fields in the priority order of \<^verbatim>\<open>get_primary_price\<close>.\<close>

definition price_fields :: "MenuItem \<Rightarrow> rat option list" where
  "price_fields self =
     [price self, full_plate_price self, half_plate_price self, large_price self,
      medium_price self, small_price self]"

text \<open>The bounds every price field is validated against.\<close>

definition price_in_bounds :: "rat option \<Rightarrow> bool" where
  "price_in_bounds v = (case v of None \<Rightarrow> True | Some x \<Rightarrow> 0 \<le> x \<and> x \<le> 100000)"

subsection \<open>\<^verbatim>\<open>MenuData\<close>\<close>

record MenuData =
  items :: "MenuItem list"
  restaurant_name :: "pystr option"
  total_items :: int
  source_file :: "pystr option"
  extraction_confidence :: rat
  detected_currency :: "pystr option"
  extraction_method :: "pystr option"

text \<open>
  \<^verbatim>\<open>MenuData(restaurant_name=..., items=..., total_items=..., extraction_confidence=...)\<close>:
  \<^verbatim>\<open>extraction_confidence\<close> is constrained by \<^verbatim>\<open>ge=0.0\<close> and \<^verbatim>\<open>le=1.0\<close>; the other
  fields take their defaults.
\<close>

definition MenuData_init :: "pystr \<Rightarrow> MenuItem list \<Rightarrow> int \<Rightarrow> rat \<Rightarrow> error + MenuData" where
  "MenuData_init name its n conf =
     (if 0 \<le> conf \<and> conf \<le> 1 then
        Inr \<lparr>items = its, restaurant_name = Some name, total_items = n,
             source_file = None, extraction_confidence = conf,
             detected_currency = None, extraction_method = None\<rparr>
      else Inl (ValidationError [''extraction_confidence'']))"

subsection \<open>\<^verbatim>\<open>MenuData.get_summary\<close>\<close>

definition Uncategorized :: pystr where
  "Uncategorized = lit ''Uncategorized''"

text \<open>The key an item is counted under: \<^verbatim>\<open>item.category or "Uncategorized"\<close>.\<close>

definition category_key :: "MenuItem \<Rightarrow> pystr" where
  "category_key item = str_or (category item) Uncategorized"

text \<open>
  The loop of \<^verbatim>\<open>get_summary\<close> over the items, with its three variables:
  the dictionary \<^verbatim>\<open>categories\<close>, the counter \<^verbatim>\<open>total_with_prices\<close> and the list
  \<^verbatim>\<open>price_range\<close>. \<^verbatim>\<open>if primary_price:\<close> tests truthiness.
\<close>

fun summary_loop ::
  "MenuItem list \<Rightarrow> (pystr \<rightharpoonup> nat) \<Rightarrow> nat \<Rightarrow> rat list \<Rightarrow> (pystr \<rightharpoonup> nat) \<times> nat \<times> rat list" where
  "summary_loop [] categories total_with_prices price_range =
     (categories, total_with_prices, price_range)"
| "summary_loop (item # rest) categories total_with_prices price_range =
     (let cat = category_key item;
          categories' =
            categories(cat \<mapsto> (case categories cat of None \<Rightarrow> 0 | Some k \<Rightarrow> k) + 1)
      in if has_any_price item then
           (case get_primary_price item of
              Some primary_price \<Rightarrow>
                if primary_price \<noteq> 0 then
                  summary_loop rest categories' (total_with_prices + 1)
                    (price_range @ [primary_price])
                else summary_loop rest categories' (total_with_prices + 1) price_range
            | None \<Rightarrow> summary_loop rest categories' (total_with_prices + 1) price_range)
         else summary_loop rest categories' total_with_prices price_range)"

text \<open>\<^verbatim>\<open>min\<close>, \<^verbatim>\<open>max\<close> and \<^verbatim>\<open>sum(xs) / len(xs)\<close>, each \<^verbatim>\<open>None\<close> for the empty list.\<close>

definition min_or_none :: "rat list \<Rightarrow> rat option" where
  "min_or_none xs = (case xs of [] \<Rightarrow> None | x # ys \<Rightarrow> Some (fold min ys x))"

definition max_or_none :: "rat list \<Rightarrow> rat option" where
  "max_or_none xs = (case xs of [] \<Rightarrow> None | x # ys \<Rightarrow> Some (fold max ys x))"

definition avg_or_none :: "rat list \<Rightarrow> rat option" where
  "avg_or_none xs =
     (case xs of [] \<Rightarrow> None | x # ys \<Rightarrow> Some (sum_list xs / of_nat (length xs)))"

record price_stats =
  stats_min :: "rat option"
  stats_max :: "rat option"
  stats_avg :: "rat option"

record summary =
  summary_total_items :: nat
  summary_items_with_prices :: nat
  summary_categories :: "pystr \<rightharpoonup> nat"
  summary_price_range :: price_stats
  summary_currency :: "pystr option"

definition get_summary :: "MenuData \<Rightarrow> summary" where
  "get_summary self =
     (case summary_loop (items self) Map.empty 0 [] of
        (categories, total_with_prices, price_range) \<Rightarrow>
          \<lparr>summary_total_items = length (items self),
           summary_items_with_prices = total_with_prices,
           summary_categories = categories,
           summary_price_range =
             \<lparr>stats_min = min_or_none price_range, stats_max = max_or_none price_range,
              stats_avg = avg_or_none price_range\<rparr>,
           summary_currency = detected_currency self\<rparr>)"

subsection \<open>The extraction call and its retries\<close>

text \<open>
  \<^verbatim>\<open>_call_llm\<close> sends the chunk to the service, writes the raw answer to a log file,
  decodes it and validates it against the schema; each of these steps can raise. The
  embedding takes the call as a parameter: a transition of the outside world \<open>'s\<close> that
  either fails or returns the validated \<^verbatim>\<open>items\<close>.
\<close>

datatype call_failure = ServiceError | Timeout | DecodeError | SchemaError | LogWriteError

type_synonym response = "raw_item list"

type_synonym 's llm = "'s \<Rightarrow> pystr \<Rightarrow> (call_failure + response) \<times> 's"

text \<open>
  What a run does to the outside world, in order: a call that returned, a call that
  raised (with the attempt number the source logs), a \<^verbatim>\<open>time.sleep(backoff)\<close>.
\<close>

datatype event = CallOk | CallFailed nat | Slept nat

definition max_retries :: nat where
  "max_retries = 3"

text \<open>
  The body of \<^verbatim>\<open>for attempt in range(1, self.max_retries + 1)\<close>, over the attempts
  still to make. A loop that runs out of attempts falls off the end of the function,
  which returns \<^verbatim>\<open>None\<close>.
\<close>

fun retry_loop ::
  "'s llm \<Rightarrow> pystr \<Rightarrow> nat list \<Rightarrow> nat \<Rightarrow> 's \<Rightarrow> response option \<times> event list \<times> 's" where
  "retry_loop call_llm chunk [] backoff st = (None, [], st)"
| "retry_loop call_llm chunk (attempt # rest) backoff st =
     (case call_llm st chunk of
        (Inr data, st') \<Rightarrow> (Some data, [CallOk], st')
      | (Inl e, st') \<Rightarrow>
          if attempt = max_retries then (None, [CallFailed attempt], st')
          else
            (case retry_loop call_llm chunk rest (backoff * 2) st' of
               (r, tr, st'') \<Rightarrow> (r, CallFailed attempt # Slept backoff # tr, st'')))"

definition call_llm_with_retries ::
  "'s llm \<Rightarrow> pystr \<Rightarrow> 's \<Rightarrow> response option \<times> event list \<times> 's" where
  "call_llm_with_retries call_llm chunk st =
     retry_loop call_llm chunk [1..<max_retries + 1] 1 st"

subsection \<open>\<^verbatim>\<open>LLMMenuParser.parse_menu\<close>\<close>

text \<open>
  The first loop: every chunk is sent in turn; a response extends \<^verbatim>\<open>all_items\<close>, a
  \<^verbatim>\<open>None\<close> leaves it as it is. (A validated response is a dictionary with the key
  \<^verbatim>\<open>items\<close>, hence truthy.)
\<close>

fun collect_loop ::
  "'s llm \<Rightarrow> pystr list \<Rightarrow> raw_item list \<Rightarrow> 's \<Rightarrow> raw_item list \<times> event list \<times> 's" where
  "collect_loop call_llm [] all_items st = (all_items, [], st)"
| "collect_loop call_llm (chunk # chunks) all_items st =
     (case call_llm_with_retries call_llm chunk st of
        (parsed, tr, st') \<Rightarrow>
          (case collect_loop call_llm chunks
                  (case parsed of None \<Rightarrow> all_items | Some data \<Rightarrow> all_items @ data) st' of
             (all_items', tr', st'') \<Rightarrow> (all_items', tr @ tr', st'')))"

text \<open>
  The second loop: an item is kept when \<^verbatim>\<open>MenuItem(**item)\<close> succeeds and the object
  has a price; any exception skips the item.
\<close>

fun validate_loop :: "raw_item list \<Rightarrow> MenuItem list \<Rightarrow> MenuItem list" where
  "validate_loop [] valid_items = valid_items"
| "validate_loop (item # rest) valid_items =
     (case MenuItem_init item of
        Inr obj \<Rightarrow>
          if has_any_price obj then validate_loop rest (valid_items @ [obj])
          else validate_loop rest valid_items
      | Inl e \<Rightarrow> validate_loop rest valid_items)"

text \<open>\<^verbatim>\<open>a / b\<close> on integers: true division, which raises when \<open>b\<close> is zero.\<close>

definition true_div :: "nat \<Rightarrow> nat \<Rightarrow> error + rat" where
  "true_div a b = (if b = 0 then Inl ZeroDivisionError else Inr (of_nat a / of_nat b))"

definition Unknown :: pystr where
  "Unknown = lit ''Unknown''"

text \<open>
  \<^verbatim>\<open>parse_menu\<close>. \<^verbatim>\<open>normalize_extracted_text\<close> lives in \<^verbatim>\<open>utils/clean_text.py\<close>, which
  is not among the sources; it is the first parameter, a function from strings to
  strings. The result is the value returned or the exception raised, with the
  trace of the run and the final state of the outside world.
\<close>

definition parse_menu ::
  "(pystr \<Rightarrow> pystr) \<Rightarrow> 's llm \<Rightarrow> 's \<Rightarrow> pystr \<Rightarrow> pystr option \<Rightarrow>
     (error + MenuData) \<times> event list \<times> 's" where
  "parse_menu normalize_extracted_text call_llm st text name =
     (let clean = normalize_extracted_text text;
          chunks = chunk_text clean
      in case collect_loop call_llm chunks [] st of
           (all_items, tr, st') \<Rightarrow>
             (let valid_items = validate_loop all_items []
              in (case true_div (length valid_items) (max 1 (length all_items)) of
                    Inl e \<Rightarrow> Inl e
                  | Inr conf \<Rightarrow>
                      MenuData_init (str_or name Unknown) valid_items
                        (int (length valid_items)) conf,
                  tr, st')))"

text \<open>
  A scripted extraction call, as a test double: the outside world is the list of
  outcomes still to come, and each call takes the next one. A call after the script
  has run out times out.
\<close>

fun scripted :: "(call_failure + response) list llm" where
  "scripted [] chunk = (Inl Timeout, [])"
| "scripted (r # rs) chunk = (r, rs)"

subsection \<open>Notions used in the statements\<close>

text \<open>The six price properties of a raw record, in the order of \<open>price_fields\<close>.\<close>

definition raw_price_fields :: "raw_item \<Rightarrow> rat option list" where
  "raw_price_fields raw =
     [raw_price raw, raw_full_plate_price raw, raw_half_plate_price raw,
      raw_large_price raw, raw_medium_price raw, raw_small_price raw]"

text \<open>
  The object \<^verbatim>\<open>MenuItem(**item)\<close> returns when no field fails: the name cleaned, the
  other properties as given, the remaining fields at their defaults.
\<close>

definition built :: "raw_item \<Rightarrow> MenuItem" where
  "built raw =
     \<lparr>item_name = clean_name (raw_item_name raw), category = raw_category raw,
      description = raw_description raw, price = raw_price raw,
      half_plate_price = raw_half_plate_price raw,
      full_plate_price = raw_full_plate_price raw, small_price = raw_small_price raw,
      medium_price = raw_medium_price raw, large_price = raw_large_price raw,
      currency = None, spice_level = None, dietary_tags = []\<rparr>"

text \<open>
  Observations of a trace: the number of calls of the extraction service, and the
  arguments of \<^verbatim>\<open>time.sleep\<close> in order.
\<close>

fun attempts :: "event list \<Rightarrow> nat" where
  "attempts [] = 0"
| "attempts (Slept n # tr) = attempts tr"
| "attempts (e # tr) = Suc (attempts tr)"

fun sleeps :: "event list \<Rightarrow> nat list" where
  "sleeps [] = []"
| "sleeps (Slept n # tr) = n # sleeps tr"
| "sleeps (e # tr) = sleeps tr"

text \<open>
  What the extraction client returns for the chunks of one document: the result of the
  retrying call for every chunk, in chunk order, each call starting in the state the
  previous chunk left the outside world in.
\<close>

fun chunk_results :: "'s llm \<Rightarrow> pystr list \<Rightarrow> 's \<Rightarrow> response option list" where
  "chunk_results call_llm [] st = []"
| "chunk_results call_llm (chunk # chunks) st =
     (case call_llm_with_retries call_llm chunk st of
        (parsed, tr, st') \<Rightarrow> parsed # chunk_results call_llm chunks st')"

text \<open>The raw items of all the results: a result of \<^verbatim>\<open>None\<close> contributes none.\<close>

definition returned_items :: "response option list \<Rightarrow> raw_item list" where
  "returned_items results =
     concat (map (\<lambda>parsed. case parsed of None \<Rightarrow> [] | Some data \<Rightarrow> data) results)"

text \<open>
  The validated, priced items of a list of raw records: the objects of the records for
  which \<^verbatim>\<open>MenuItem(**item)\<close> succeeds, in order, that have at least one price.
\<close>

definition valid_priced :: "raw_item list \<Rightarrow> MenuItem list" where
  "valid_priced raws =
     filter has_any_price
       (concat (map (\<lambda>raw. case MenuItem_init raw of Inl e \<Rightarrow> [] | Inr obj \<Rightarrow> [obj]) raws))"

subsection \<open>Concrete inputs\<close>

text \<open>
  A raw record with a name and a single \<^verbatim>\<open>price\<close> (every other property null), and
  the menu item with the same name and price.
\<close>

definition priced_raw :: "string \<Rightarrow> rat option \<Rightarrow> raw_item" where
  "priced_raw name p =
     \<lparr>raw_item_name = lit name, raw_category = None, raw_description = None,
      raw_price = p, raw_half_plate_price = None, raw_full_plate_price = None,
      raw_small_price = None, raw_medium_price = None, raw_large_price = None,
      raw_price_display = None\<rparr>"

definition priced_item :: "string \<Rightarrow> rat option \<Rightarrow> MenuItem" where
  "priced_item name p =
     \<lparr>item_name = lit name, category = None, description = None, price = p,
      half_plate_price = None, full_plate_price = None, small_price = None,
      medium_price = None, large_price = None, currency = None, spice_level = None,
      dietary_tags = []\<rparr>"

text \<open>
  A script for a document of three chunks: the first call returns a priced and an
  unpriced record, the second chunk fails three times, the last call returns a priced
  record and one whose name is too short.
\<close>

definition cafe_script :: "(call_failure + response) list" where
  "cafe_script =
     [Inr [priced_raw ''Tea'' (Some 10), priced_raw ''Tea'' None],
      Inl Timeout, Inl SchemaError, Inl ServiceError,
      Inr [priced_raw ''Tea'' (Some 5), priced_raw ''T'' (Some 3)]]"

text \<open>A \<^verbatim>\<open>MenuData\<close> holding the given items, every other field at its default.\<close>

definition menu_of :: "MenuItem list \<Rightarrow> MenuData" where
  "menu_of its =
     \<lparr>items = its, restaurant_name = None, total_items = int (length its),
      source_file = None, extraction_confidence = 1, detected_currency = None,
      extraction_method = None\<rparr>"

text \<open>
  A text of 5000 characters with one space, at index 1999: the last character of the
  first slice the chunker cuts.
\<close>

definition spaced_text :: pystr where
  "spaced_text = replicate 1999 97 @ [32] @ replicate 3000 98"

section \<open>Properties of the chunker\<close>

lemma ceil_step:
  fixes m s n :: nat
  assumes "0 < m" and "s < n"
  shows "1 + (n - min (s + m) n + m - 1) div m = (n - s + m - 1) div m"
proof (cases "s + m \<le> n")
  case True
  then have "n - s + m - 1 = (n - (s + m) + m - 1) + m" using assms by simp
  then have "(n - s + m - 1) div m = (n - (s + m) + m - 1) div m + 1"
    using assms by (metis div_add_self2 less_numeral_extra(3))
  with True show ?thesis by (simp add: min_def)
next
  case False
  then have "n - s - 1 < m" using assms by simp
  then have z: "(n - s - 1) div m = 0" by simp
  have "n - s + m - 1 = (n - s - 1) + m" using assms by simp
  then have "(n - s + m - 1) div m = (n - s - 1) div m + 1"
    using assms by (metis div_add_self2 less_numeral_extra(3))
  with z False assms show ?thesis by (simp add: min_def)
qed

lemma length_strip_le: "length (strip s) \<le> length s"
proof -
  have "length (dropWhile is_space (rev (dropWhile is_space s))) \<le> length (rev (dropWhile is_space s))"
    by (rule length_dropWhile_le)
  also have "\<dots> \<le> length s" by (simp add: length_dropWhile_le)
  finally show ?thesis by (simp add: strip_def)
qed

lemma chunk_loop_segment_loop:
  "chunk_loop T start (map strip segs) = map strip (segment_loop T start segs)"
proof (induction T start segs rule: segment_loop.induct)
  case (1 T start segs)
  show ?case
  proof (cases "start < length T")
    case True
    with "1.IH" [OF True refl refl] show ?thesis
      by (subst chunk_loop.simps, subst segment_loop.simps) (simp add: Let_def)
  next
    case False
    then show ?thesis
      by (subst chunk_loop.simps, subst segment_loop.simps) simp
  qed
qed

lemma concat_segment_loop:
  "start \<le> length T \<Longrightarrow>
     concat (segment_loop T start segs) = concat segs @ drop start T"
proof (induction T start segs rule: segment_loop.induct)
  case (1 T start segs)
  show ?case
  proof (cases "start < length T")
    case True
    let ?e = "min (start + max_chars) (length T)"
    have le: "?e \<le> length T" by simp
    have split: "slice T start ?e @ drop ?e T = drop start T"
    proof -
      have "?e - start + start = ?e" using True by simp
      then have "drop (?e - start) (drop start T) = drop ?e T"
        by (simp only: drop_drop)
      then have "slice T start ?e @ drop ?e T =
                   take (?e - start) (drop start T) @ drop (?e - start) (drop start T)"
        by (simp only: slice_def)
      then show ?thesis by (simp only: append_take_drop_id)
    qed
    have "concat (segment_loop T start segs) =
            concat (segment_loop T ?e (segs @ [slice T start ?e]))"
      using True by (subst segment_loop.simps) (simp add: Let_def)
    also have "\<dots> = concat (segs @ [slice T start ?e]) @ drop ?e T"
      using "1.IH" [OF True refl refl le] .
    also have "\<dots> = concat segs @ drop start T"
      using split by simp
    finally show ?thesis .
  next
    case False
    with "1.prems" show ?thesis
      by (subst segment_loop.simps) simp
  qed
qed

lemma length_segment_loop:
  "length (segment_loop T start segs) =
     length segs + (length T - start + max_chars - 1) div max_chars"
proof (induction T start segs rule: segment_loop.induct)
  case (1 T start segs)
  show ?case
  proof (cases "start < length T")
    case True
    let ?e = "min (start + max_chars) (length T)"
    have "length (segment_loop T start segs) =
            length (segment_loop T ?e (segs @ [slice T start ?e]))"
      using True by (subst segment_loop.simps) (simp add: Let_def)
    also have "\<dots> = length segs + (1 + (length T - ?e + max_chars - 1) div max_chars)"
      using "1.IH" [OF True refl refl] by simp
    also have "1 + (length T - ?e + max_chars - 1) div max_chars =
                 (length T - start + max_chars - 1) div max_chars"
      using True ceil_step [of max_chars start "length T"] by (simp add: max_chars_def)
    finally show ?thesis by simp
  next
    case False
    then show ?thesis
      by (subst segment_loop.simps) (simp add: max_chars_def)
  qed
qed

lemma segment_loop_bounded:
  "\<forall>s \<in> set segs. length s \<le> max_chars \<Longrightarrow>
     \<forall>s \<in> set (segment_loop T start segs). length s \<le> max_chars"
proof (induction T start segs rule: segment_loop.induct)
  case (1 T start segs)
  show ?case
  proof (cases "start < length T")
    case True
    let ?e = "min (start + max_chars) (length T)"
    have "length (slice T start ?e) \<le> max_chars"
      by (simp add: slice_def)
    with "1.prems" have "\<forall>s \<in> set (segs @ [slice T start ?e]). length s \<le> max_chars"
      by auto
    from "1.IH" [OF True refl refl this] True show ?thesis
      by (subst segment_loop.simps) (simp add: Let_def)
  next
    case False
    with "1.prems" show ?thesis
      by (subst segment_loop.simps) simp
  qed
qed

lemma chunk_text_segments:
  "chunk_text T = (if length T \<le> max_chars then segments T else map strip (segments T))"
  using chunk_loop_segment_loop [of T 0 "[]"]
  by (simp add: chunk_text_def segments_def)

lemma concat_segments: "concat (segments T) = T"
  using concat_segment_loop [of 0 T "[]"] by (simp add: segments_def)

lemma length_segments_long:
  "max_chars < length T \<Longrightarrow> length (segments T) = (length T + max_chars - 1) div max_chars"
  using length_segment_loop [of T 0 "[]"] by (simp add: segments_def)

lemma segments_bounded: "max_chars < length T \<Longrightarrow> \<forall>s \<in> set (segments T). length s \<le> max_chars"
  using segment_loop_bounded [of "[]" T 0] by (simp add: segments_def)

lemma segments_5000:
  assumes "length T = 5000"
  shows "segments T = [take 2000 T, take 2000 (drop 2000 T), drop 4000 T]"
proof -
  have "segment_loop T 0 [] = segment_loop T 2000 [take 2000 T]"
    using assms by (subst segment_loop.simps) (simp add: max_chars_def slice_def)
  also have "\<dots> = segment_loop T 4000 [take 2000 T, take 2000 (drop 2000 T)]"
    using assms by (subst segment_loop.simps) (simp add: max_chars_def slice_def)
  also have "\<dots> = segment_loop T 5000 [take 2000 T, take 2000 (drop 2000 T), drop 4000 T]"
    using assms by (subst segment_loop.simps) (simp add: max_chars_def slice_def)
  also have "\<dots> = [take 2000 T, take 2000 (drop 2000 T), drop 4000 T]"
    using assms by (subst segment_loop.simps) simp
  finally show ?thesis using assms by (simp add: segments_def max_chars_def)
qed

lemma strip_id:
  assumes "s \<noteq> []" and "\<not> is_space (hd s)" and "\<not> is_space (last s)"
  shows "strip s = s"
proof -
  have "dropWhile is_space s = s" using assms by (cases s) simp_all
  moreover have "dropWhile is_space (rev s) = rev s"
    using assms by (cases "rev s") (simp_all add: hd_rev)
  ultimately show ?thesis by (simp add: strip_def)
qed

lemma ceil_div:
  fixes n m :: nat
  assumes "0 < m"
  shows "int ((n + m - 1) div m) = \<lceil>(of_nat n :: rat) / of_nat m\<rceil>"
proof -
  define q where "q = (n + m - 1) div m"
  define r where "r = (n + m - 1) mod m"
  have eq: "n + m - 1 = q * m + r" by (simp add: q_def r_def)
  have r: "r < m" using assms by (simp add: r_def)
  have up: "n \<le> q * m" using eq r by linarith
  have lo: "q * m < n + m" using eq r assms by linarith
  have "(of_nat n :: rat) \<le> of_nat (q * m)" using up by (simp only: of_nat_le_iff)
  then have le: "(of_nat n :: rat) / of_nat m \<le> of_int (int q)"
    using assms by (simp add: pos_divide_le_eq)
  have "(of_nat (q * m) :: rat) < of_nat (n + m)" using lo by (simp only: of_nat_less_iff)
  then have "(of_int (int q) - 1) * (of_nat m :: rat) < of_nat n"
    by (simp add: algebra_simps)
  then have gt: "of_int (int q) - 1 < (of_nat n :: rat) / of_nat m"
    using assms by (simp add: pos_less_divide_eq)
  have "\<lceil>(of_nat n :: rat) / of_nat m\<rceil> = int q"
    using gt le by (rule ceiling_unique)
  then show ?thesis by (simp add: q_def)
qed

text \<open>
  Claim C5. The chunker neither drops nor duplicates a character: the untrimmed
  segments, concatenated, are the text, and the chunks returned are these segments
  (trimmed, when the text is longer than \<open>max_chars\<close>).
\<close>

theorem chunker_reconstructs:
  "concat (segments T) = T \<and>
   chunk_text T = (if length T \<le> max_chars then segments T else map strip (segments T))"
  using concat_segments [of T] chunk_text_segments [of T] by simp

theorem chunker_reconstructs_witness:
  "concat (segments spaced_text) = spaced_text \<and>
   chunk_text spaced_text = map strip (segments spaced_text) \<and>
   concat (segments (lit '' ab '')) = lit '' ab '' \<and>
   chunk_text (lit '' ab '') = segments (lit '' ab '')"
  using chunker_reconstructs [of spaced_text] chunker_reconstructs [of "lit '' ab ''"]
  by (simp add: spaced_text_def lit_def max_chars_def)

text \<open>
  Claim C4, as stated, fails: a text of 5000 characters whose first slice ends with a
  space yields chunks of sizes 1999, 2000 and 1000, since every slice is trimmed.
\<close>

theorem chunk_sizes_counterexample:
  "length spaced_text = 5000 \<and> map length (chunk_text spaced_text) = [1999, 2000, 1000]"
proof -
  have len: "length spaced_text = 5000" by (simp add: spaced_text_def)
  have a: "take 2000 spaced_text = replicate 1999 97 @ [32]"
    by (simp add: spaced_text_def)
  have b: "take 2000 (drop 2000 spaced_text) = replicate 2000 98"
    by (simp add: spaced_text_def)
  have c: "drop 4000 spaced_text = replicate 1000 98"
    by (simp add: spaced_text_def)
  have sa: "strip (replicate 1999 97 @ [32]) = replicate 1999 97"
    by (simp add: strip_def is_space_def dropWhile_replicate)
  have sb: "strip (replicate n 98) = replicate n 98" for n
    by (simp add: strip_def is_space_def dropWhile_replicate)
  have "chunk_text spaced_text = map strip (segments spaced_text)"
    using len by (simp add: chunk_text_segments max_chars_def)
  then have "chunk_text spaced_text = [replicate 1999 97, replicate 2000 98, replicate 1000 98]"
    by (simp add: segments_5000 [OF len] a b c sa sb)
  with len show ?thesis by simp
qed

text \<open>
  Claim C4, amended. For a text longer than \<open>max_chars\<close>, no chunk is longer than
  \<open>max_chars\<close> and the number of chunks is the ceiling of the length divided by
  \<open>max_chars\<close>; every chunk is a slice with its boundary whitespace trimmed. A text of
  5000 characters gives three chunks, cut from slices of sizes 2000, 2000 and 1000;
  the chunks are at most that long, and exactly that long when no slice begins or ends
  with whitespace.
\<close>

theorem chunk_text_long:
  assumes "max_chars < length T"
  shows "(\<forall>c \<in> set (chunk_text T). length c \<le> max_chars) \<and>
         int (length (chunk_text T)) = \<lceil>(of_nat (length T) :: rat) / of_nat max_chars\<rceil> \<and>
         chunk_text T = map strip (segments T) \<and>
         (length T = 5000 \<longrightarrow>
            length (chunk_text T) = 3 \<and>
            map length (segments T) = [2000, 2000, 1000] \<and>
            length (chunk_text T ! 0) \<le> 2000 \<and> length (chunk_text T ! 1) \<le> 2000 \<and>
            length (chunk_text T ! 2) \<le> 1000 \<and>
            ((\<forall>s \<in> set (segments T). \<not> is_space (hd s) \<and> \<not> is_space (last s)) \<longrightarrow>
               map length (chunk_text T) = [2000, 2000, 1000]))"
proof -
  have ct: "chunk_text T = map strip (segments T)"
    using assms by (simp add: chunk_text_segments)
  have bound: "\<forall>c \<in> set (chunk_text T). length c \<le> max_chars"
  proof
    fix c assume "c \<in> set (chunk_text T)"
    then obtain s where s: "s \<in> set (segments T)" and c: "c = strip s"
      using ct by auto
    have "length c \<le> length s" using c by (simp add: length_strip_le)
    also have "\<dots> \<le> max_chars" using segments_bounded [OF assms] s by blast
    finally show "length c \<le> max_chars" .
  qed
  have "0 < max_chars" by (simp add: max_chars_def)
  then have count: "int (length (chunk_text T)) = \<lceil>(of_nat (length T) :: rat) / of_nat max_chars\<rceil>"
    using ct length_segments_long [OF assms] ceil_div [of max_chars "length T"] by simp
  have five: "length (chunk_text T) = 3 \<and>
            map length (segments T) = [2000, 2000, 1000] \<and>
            length (chunk_text T ! 0) \<le> 2000 \<and> length (chunk_text T ! 1) \<le> 2000 \<and>
            length (chunk_text T ! 2) \<le> 1000 \<and>
            ((\<forall>s \<in> set (segments T). \<not> is_space (hd s) \<and> \<not> is_space (last s)) \<longrightarrow>
               map length (chunk_text T) = [2000, 2000, 1000])" if len: "length T = 5000"
  proof -
    note seg = segments_5000 [OF len]
    have l0: "length (take 2000 T) = 2000" and l1: "length (take 2000 (drop 2000 T)) = 2000"
      and l2: "length (drop 4000 T) = 1000" using len by simp_all
    have s0: "length (strip (take 2000 T)) \<le> 2000"
      using length_strip_le [of "take 2000 T"] l0 by simp
    have s1: "length (strip (take 2000 (drop 2000 T))) \<le> 2000"
      using length_strip_le [of "take 2000 (drop 2000 T)"] l1 by simp
    have s2: "length (strip (drop 4000 T)) \<le> 1000"
      using length_strip_le [of "drop 4000 T"] l2 by simp
    have exact: "map length (chunk_text T) = [2000, 2000, 1000]"
      if ns: "\<forall>s \<in> set (segments T). \<not> is_space (hd s) \<and> \<not> is_space (last s)"
    proof -
      have "strip s = s" if "s \<in> set (segments T)" for s
      proof (rule strip_id)
        show "s \<noteq> []" using that seg l0 l1 l2 by auto
        show "\<not> is_space (hd s)" "\<not> is_space (last s)" using that ns by auto
      qed
      then have "map strip (segments T) = segments T" by (simp add: map_idI)
      then show ?thesis using ct seg l0 l1 l2 by simp
    qed
    show ?thesis using ct seg l0 l1 l2 s0 s1 s2 exact by simp
  qed
  show ?thesis using bound count ct five by blast
qed

theorem chunk_text_long_witness:
  "length (chunk_text (replicate 5000 97)) = 3 \<and>
   map length (segments (replicate 5000 97)) = [2000, 2000, 1000] \<and>
   map length (chunk_text (replicate 5000 97)) = [2000, 2000, 1000]"
proof -
  have seg: "segments (replicate 5000 97) = [replicate 2000 97, replicate 2000 97, replicate 1000 97]"
    by (simp add: segments_5000)
  have "\<forall>s \<in> set (segments (replicate 5000 97)). \<not> is_space (hd s) \<and> \<not> is_space (last s)"
    by (simp add: seg is_space_def)
  moreover have "max_chars < length (replicate 5000 (97::nat))"
    by (simp add: max_chars_def)
  moreover have "length (replicate 5000 (97::nat)) = 5000" by simp
  ultimately show ?thesis
    using chunk_text_long [of "replicate 5000 97"] by blast
qed

text \<open>
  Claim C6, as stated, fails: a short text is returned as it is, so a text with a
  leading space yields a chunk that is not the trimmed text.
\<close>

theorem chunk_text_short_counterexample:
  "length (lit '' a'') \<le> max_chars \<and> chunk_text (lit '' a'') \<noteq> [strip (lit '' a'')]"
  by (simp add: lit_def max_chars_def chunk_text_def strip_def is_space_def)

text \<open>
  Claim C6, amended. For a text of at most \<open>max_chars\<close> characters the chunker returns
  the single chunk that is the text itself, untrimmed; it is the trimmed text exactly
  when the text has no whitespace to trim. The empty text yields one empty chunk.
\<close>

theorem chunk_text_short:
  assumes "length T \<le> max_chars"
  shows "chunk_text T = [T] \<and> (chunk_text T = [strip T]) = (strip T = T) \<and>
         chunk_text [] = [[]]"
  using assms by (auto simp: chunk_text_def)

theorem chunk_text_short_witness:
  "chunk_text (lit ''Tea 10'') = [lit ''Tea 10''] \<and> chunk_text [] = [[]]"
  using chunk_text_short [of "lit ''Tea 10''"] by (simp add: lit_def max_chars_def)

section \<open>Properties of validation\<close>

lemma price_field_ok: "price_in_bounds v \<Longrightarrow> price_field v = Inr v"
  by (auto simp: price_field_def validate_price_def price_in_bounds_def split: option.splits)

lemma price_field_bad: "\<not> price_in_bounds v \<Longrightarrow> \<exists>e. price_field v = Inl e"
  by (auto simp: price_field_def validate_price_def price_in_bounds_def split: option.splits)

lemma item_name_field_ok: "2 \<le> length v \<Longrightarrow> item_name_field v = Inr (clean_name v)"
  by (simp add: item_name_field_def)

lemma item_name_field_bad: "length v < 2 \<Longrightarrow> \<exists>e. item_name_field v = Inl e"
  by (simp add: item_name_field_def)

lemma MenuItem_init_ok:
  assumes "2 \<le> length (raw_item_name raw)"
    and "list_all price_in_bounds (raw_price_fields raw)"
  shows "MenuItem_init raw = Inr (built raw)"
  using assms
  by (simp add: MenuItem_init_def built_def raw_price_fields_def price_field_ok
      item_name_field_ok)

lemma MenuItem_init_short_name:
  assumes "length (raw_item_name raw) < 2"
  shows "\<exists>e. MenuItem_init raw = Inl e"
proof -
  obtain e where "item_name_field (raw_item_name raw) = Inl e"
    using item_name_field_bad [OF assms] by blast
  then show ?thesis by (simp add: MenuItem_init_def Let_def)
qed

lemma MenuItem_init_bad_price:
  assumes "\<not> list_all price_in_bounds (raw_price_fields raw)"
  shows "\<exists>e. MenuItem_init raw = Inl e"
proof -
  have "\<exists>v \<in> set (raw_price_fields raw). \<exists>e. price_field v = Inl e"
    using assms price_field_bad unfolding list_all_iff by blast
  then show ?thesis
    by (auto simp: MenuItem_init_def Let_def raw_price_fields_def split: sum.splits)
qed

lemma MenuItem_init_Inr_iff:
  "MenuItem_init raw = Inr m \<longleftrightarrow>
     2 \<le> length (raw_item_name raw) \<and> list_all price_in_bounds (raw_price_fields raw) \<and>
     m = built raw"
proof (cases "2 \<le> length (raw_item_name raw) \<and> list_all price_in_bounds (raw_price_fields raw)")
  case True
  then show ?thesis using MenuItem_init_ok [of raw] by auto
next
  case False
  then have "\<exists>e. MenuItem_init raw = Inl e"
    using MenuItem_init_short_name [of raw] MenuItem_init_bad_price [of raw] by auto
  with False show ?thesis by auto
qed

lemma validate_loop_acc: "validate_loop xs acc = acc @ validate_loop xs []"
proof (induction xs arbitrary: acc)
  case Nil
  show ?case by simp
next
  case (Cons x xs)
  show ?case
  proof (cases "MenuItem_init x")
    case (Inl e)
    then show ?thesis using Cons.IH [of acc] by simp
  next
    case (Inr obj)
    then show ?thesis
      using Cons.IH [of acc] Cons.IH [of "acc @ [obj]"] Cons.IH [of "[obj]"] by simp
  qed
qed

lemma validate_loop_Cons:
  "validate_loop (x # xs) [] = validate_loop [x] [] @ validate_loop xs []"
  using validate_loop_acc [of xs "[obj]" for obj]
  by (simp split: sum.splits)

lemma validate_loop_append:
  "validate_loop (xs @ ys) [] = validate_loop xs [] @ validate_loop ys []"
proof (induction xs)
  case Nil
  show ?case by simp
next
  case (Cons x xs)
  have "validate_loop ((x # xs) @ ys) [] = validate_loop [x] [] @ validate_loop (xs @ ys) []"
    using validate_loop_Cons [of x "xs @ ys"] by simp
  also have "\<dots> = validate_loop [x] [] @ validate_loop xs [] @ validate_loop ys []"
    using Cons.IH by simp
  also have "\<dots> = validate_loop (x # xs) [] @ validate_loop ys []"
    using validate_loop_Cons [of x xs] by simp
  finally show ?case .
qed

lemma validate_loop_single:
  "validate_loop [raw] [] =
     (case MenuItem_init raw of Inr obj \<Rightarrow> if has_any_price obj then [obj] else []
      | Inl e \<Rightarrow> [])"
  by (simp split: sum.splits)

lemma validate_loop_member:
  "m \<in> set (validate_loop xs []) \<Longrightarrow>
     \<exists>raw \<in> set xs. MenuItem_init raw = Inr m \<and> has_any_price m"
proof (induction xs)
  case Nil
  then show ?case by simp
next
  case (Cons x xs)
  from Cons.prems have "m \<in> set (validate_loop [x] []) \<or> m \<in> set (validate_loop xs [])"
    using validate_loop_Cons [of x xs] by auto
  then show ?case
  proof
    assume "m \<in> set (validate_loop [x] [])"
    then have "MenuItem_init x = Inr m \<and> has_any_price m"
      by (auto simp: validate_loop_single split: sum.splits if_splits)
    then show ?thesis by simp
  next
    assume "m \<in> set (validate_loop xs [])"
    then show ?thesis using Cons.IH by auto
  qed
qed

lemma length_validate_loop: "length (validate_loop xs []) \<le> length xs"
proof (induction xs)
  case Nil
  show ?case by simp
next
  case (Cons x xs)
  have "length (validate_loop [x] []) \<le> 1"
    by (simp add: validate_loop_single split: sum.splits)
  then show ?case using Cons.IH validate_loop_Cons [of x xs] by simp
qed

lemma validate_loop_drop:
  assumes "validate_loop [raw] [] = []"
  shows "validate_loop (xs @ raw # ys) acc = validate_loop (xs @ ys) acc"
proof -
  have "validate_loop (xs @ raw # ys) [] = validate_loop (xs @ ys) []"
    using assms validate_loop_append [of xs "raw # ys"] validate_loop_Cons [of raw ys]
      validate_loop_append [of xs ys] by simp
  then show ?thesis
    using validate_loop_acc [of "xs @ raw # ys" acc] validate_loop_acc [of "xs @ ys" acc]
    by simp
qed

lemma has_any_price_built:
  "has_any_price (built raw) = (\<exists>v \<in> set (raw_price_fields raw). v \<noteq> None)"
  by (auto simp: has_any_price_def built_def raw_price_fields_def)

lemma price_fields_built: "price_fields (built raw) = raw_price_fields raw"
  by (simp add: price_fields_def built_def raw_price_fields_def)

lemma clean_name_Tea: "clean_name (lit ''Tea'') = lit ''Tea''"
  by (simp add: clean_name_def split_def strip_def is_space_def lit_def)

lemma MenuItem_init_Tea:
  "MenuItem_init (priced_raw ''Tea'' (Some 99999.99)) = Inr (priced_item ''Tea'' (Some 99999.99))"
  using MenuItem_init_ok [of "priced_raw ''Tea'' (Some 99999.99)"]
  by (simp add: priced_raw_def priced_item_def built_def raw_price_fields_def
      price_in_bounds_def clean_name_Tea) (simp add: lit_def)

section \<open>Properties of the retrying call\<close>

lemma attempts_list: "[1..<max_retries + 1] = [1, 2, 3]"
  by (simp add: max_retries_def upt_rec)

lemma retry_cases:
  "call_llm_with_retries call_llm chunk st =
     (case call_llm st chunk of
        (Inr d, s1) \<Rightarrow> (Some d, [CallOk], s1)
      | (Inl e1, s1) \<Rightarrow>
          (case call_llm s1 chunk of
             (Inr d, s2) \<Rightarrow> (Some d, [CallFailed 1, Slept 1, CallOk], s2)
           | (Inl e2, s2) \<Rightarrow>
               (case call_llm s2 chunk of
                  (Inr d, s3) \<Rightarrow>
                    (Some d, [CallFailed 1, Slept 1, CallFailed 2, Slept 2, CallOk], s3)
                | (Inl e3, s3) \<Rightarrow>
                    (None, [CallFailed 1, Slept 1, CallFailed 2, Slept 2, CallFailed 3], s3))))"
  unfolding call_llm_with_retries_def attempts_list
  by (simp add: max_retries_def split: prod.splits sum.splits)

text \<open>
  Claim C3. The retrying call makes between one and three attempts. It sleeps after
  each failed attempt but the last, for 1 time unit and then for 2. Two failures
  followed by a success return the successful response; three failures return
  \<^verbatim>\<open>None\<close>, a value and not an exception, and this is the only way to \<^verbatim>\<open>None\<close>.
\<close>

theorem retries_bounded:
  "(let r = fst (call_llm_with_retries call_llm chunk st);
        tr = fst (snd (call_llm_with_retries call_llm chunk st))
    in 1 \<le> attempts tr \<and> attempts tr \<le> 3 \<and>
       sleeps tr = map (\<lambda>i. 2 ^ i) [0..<attempts tr - 1] \<and>
       (r = None) = (tr = [CallFailed 1, Slept 1, CallFailed 2, Slept 2, CallFailed 3]) \<and>
       (r \<noteq> None) = (last tr = CallOk)) \<and>
   (call_llm st chunk = (Inl e1, s1) \<and> call_llm s1 chunk = (Inl e2, s2) \<and>
    call_llm s2 chunk = (Inr d, s3) \<longrightarrow>
      call_llm_with_retries call_llm chunk st =
        (Some d, [CallFailed 1, Slept 1, CallFailed 2, Slept 2, CallOk], s3)) \<and>
   (call_llm st chunk = (Inl e1, s1) \<and> call_llm s1 chunk = (Inl e2, s2) \<and>
    call_llm s2 chunk = (Inl e3, s3) \<longrightarrow>
      call_llm_with_retries call_llm chunk st =
        (None, [CallFailed 1, Slept 1, CallFailed 2, Slept 2, CallFailed 3], s3))"
  by (simp add: retry_cases Let_def split: prod.splits sum.splits)

theorem retries_bounded_witness:
  "call_llm_with_retries scripted (lit ''Tea 10'')
     [Inl Timeout, Inl SchemaError, Inr [priced_raw ''Tea'' (Some 10)]] =
     (Some [priced_raw ''Tea'' (Some 10)],
      [CallFailed 1, Slept 1, CallFailed 2, Slept 2, CallOk], []) \<and>
   call_llm_with_retries scripted (lit ''Tea 10'')
     [Inl Timeout, Inl SchemaError, Inl ServiceError] =
     (None, [CallFailed 1, Slept 1, CallFailed 2, Slept 2, CallFailed 3], [])"
  using retries_bounded [of scripted "lit ''Tea 10''"
      "[Inl Timeout, Inl SchemaError, Inr [priced_raw ''Tea'' (Some 10)]]"
      Timeout "[Inl SchemaError, Inr [priced_raw ''Tea'' (Some 10)]]"
      SchemaError "[Inr [priced_raw ''Tea'' (Some 10)]]"
      "[priced_raw ''Tea'' (Some 10)]" "[]"]
    retries_bounded [of scripted "lit ''Tea 10''"
      "[Inl Timeout, Inl SchemaError, Inl ServiceError]"
      Timeout "[Inl SchemaError, Inl ServiceError]"
      SchemaError "[Inl ServiceError]" d "[]" ServiceError for d]
  by simp

section \<open>Validated records\<close>

lemma bad_price_iff:
  "(\<not> list_all price_in_bounds vs) = (\<exists>x. Some x \<in> set vs \<and> (x < 0 \<or> 100000 < x))"
proof
  assume "\<not> list_all price_in_bounds vs"
  then obtain v where v: "v \<in> set vs" "\<not> price_in_bounds v"
    by (auto simp: list_all_iff)
  from v(2) obtain x where x: "v = Some x" by (cases v) (simp_all add: price_in_bounds_def)
  with v(2) have "x < 0 \<or> 100000 < x" by (auto simp: price_in_bounds_def)
  with v(1) x show "\<exists>x. Some x \<in> set vs \<and> (x < 0 \<or> 100000 < x)" by auto
next
  assume "\<exists>x. Some x \<in> set vs \<and> (x < 0 \<or> 100000 < x)"
  then obtain x where "Some x \<in> set vs" "\<not> price_in_bounds (Some x)"
    by (auto simp: price_in_bounds_def)
  then show "\<not> list_all price_in_bounds vs" by (auto simp: list_all_iff)
qed

lemma rejected_dropped:
  assumes "MenuItem_init raw = Inl e"
  shows "validate_loop (xs @ raw # ys) acc = validate_loop (xs @ ys) acc"
  using assms by (intro validate_loop_drop) (simp add: validate_loop_single)

text \<open>
  Claim C7. Every price field of a validated \<^verbatim>\<open>MenuItem\<close> is null or within
  \<open>[0, 100000]\<close>, and so is every item the validation loop keeps. A raw record with
  a price field below 0 or above 100000 (150000, say) fails validation and is
  skipped by the loop, which goes on as if the record were not there. A record with a
  name of two characters or more whose only price is 99999.99 is accepted and kept.
\<close>

theorem validated_prices_in_bounds:
  "(MenuItem_init raw = Inr m \<longrightarrow> list_all price_in_bounds (price_fields m)) \<and>
   (\<forall>m \<in> set (validate_loop raws []). list_all price_in_bounds (price_fields m)) \<and>
   (Some x \<in> set (raw_price_fields raw) \<and> (x < 0 \<or> 100000 < x) \<longrightarrow>
      (\<exists>e. MenuItem_init raw = Inl e) \<and>
      validate_loop (xs @ raw # ys) acc = validate_loop (xs @ ys) acc) \<and>
   (2 \<le> length (raw_item_name ok) \<and>
    raw_price_fields ok = [Some 99999.99, None, None, None, None, None] \<longrightarrow>
      MenuItem_init ok = Inr (built ok) \<and> price (built ok) = Some 99999.99 \<and>
      validate_loop (xs @ [ok]) [] = validate_loop xs [] @ [built ok])"
proof -
  have a: "list_all price_in_bounds (price_fields m)" if "MenuItem_init r = Inr m" for r m
    using that by (simp add: MenuItem_init_Inr_iff price_fields_built)
  have b: "\<forall>m \<in> set (validate_loop raws []). list_all price_in_bounds (price_fields m)"
    using validate_loop_member a by blast
  have c: "(\<exists>e. MenuItem_init raw = Inl e) \<and>
      validate_loop (xs @ raw # ys) acc = validate_loop (xs @ ys) acc"
    if "Some x \<in> set (raw_price_fields raw)" "x < 0 \<or> 100000 < x"
  proof -
    have "\<not> list_all price_in_bounds (raw_price_fields raw)"
      using that bad_price_iff by blast
    then obtain e where "MenuItem_init raw = Inl e"
      using MenuItem_init_bad_price by blast
    then show ?thesis using rejected_dropped by blast
  qed
  have d: "MenuItem_init ok = Inr (built ok) \<and> price (built ok) = Some 99999.99 \<and>
      validate_loop (xs @ [ok]) [] = validate_loop xs [] @ [built ok]"
    if n: "2 \<le> length (raw_item_name ok)"
      and p: "raw_price_fields ok = [Some 99999.99, None, None, None, None, None]"
  proof -
    have init: "MenuItem_init ok = Inr (built ok)"
      using n p by (intro MenuItem_init_ok) (simp_all add: price_in_bounds_def)
    have pr: "price (built ok) = Some 99999.99"
      using p by (simp add: built_def raw_price_fields_def)
    have "has_any_price (built ok)" using pr by (simp add: has_any_price_def)
    then have "validate_loop [ok] [] = [built ok]"
      using init by (simp add: validate_loop_single)
    then show ?thesis using init pr validate_loop_append [of xs "[ok]"] by simp
  qed
  show ?thesis using a b c d by blast
qed

theorem validated_prices_in_bounds_witness:
  "MenuItem_init (priced_raw ''Tea'' (Some 150000)) = Inl (ValidationError [''price'']) \<and>
   MenuItem_init (priced_raw ''Tea'' (Some (- 1))) = Inl (ValidationError [''price'']) \<and>
   MenuItem_init (priced_raw ''Tea'' (Some 99999.99)) =
     Inr (priced_item ''Tea'' (Some 99999.99)) \<and>
   validate_loop [priced_raw ''Tea'' (Some 150000), priced_raw ''Tea'' (Some 99999.99)] [] =
     [priced_item ''Tea'' (Some 99999.99)]"
proof -
  have b: "built (priced_raw ''Tea'' (Some 99999.99)) = priced_item ''Tea'' (Some 99999.99)"
    by (simp add: built_def priced_raw_def priced_item_def clean_name_Tea)
  have e1: "MenuItem_init (priced_raw ''Tea'' (Some 150000)) = Inl (ValidationError [''price''])"
    by (simp add: MenuItem_init_def priced_raw_def item_name_field_def price_field_def
        validate_price_def field_errors_def lit_def)
  have e2: "MenuItem_init (priced_raw ''Tea'' (Some (- 1))) = Inl (ValidationError [''price''])"
    by (simp add: MenuItem_init_def priced_raw_def item_name_field_def price_field_def
        validate_price_def field_errors_def lit_def)
  have l: "2 \<le> length (raw_item_name (priced_raw ''Tea'' (Some 99999.99)))"
    by (simp add: priced_raw_def lit_def)
  have p: "raw_price_fields (priced_raw ''Tea'' (Some 99999.99)) =
             [Some 99999.99, None, None, None, None, None]"
    by (simp add: priced_raw_def raw_price_fields_def)
  have h: "Some 150000 \<in> set (raw_price_fields (priced_raw ''Tea'' (Some 150000)))"
    by (simp add: priced_raw_def raw_price_fields_def)
  note th = validated_prices_in_bounds [of "priced_raw ''Tea'' (Some 150000)"
      "priced_item ''Tea'' (Some 99999.99)" "[]" 150000
      "[]" "[priced_raw ''Tea'' (Some 99999.99)]" "[]" "priced_raw ''Tea'' (Some 99999.99)"]
  have "validate_loop ([] @ priced_raw ''Tea'' (Some 150000) # [priced_raw ''Tea'' (Some 99999.99)]) [] =
          validate_loop ([] @ [priced_raw ''Tea'' (Some 99999.99)]) []"
    using th h by (simp del: validate_loop.simps)
  moreover have "MenuItem_init (priced_raw ''Tea'' (Some 99999.99)) =
      Inr (built (priced_raw ''Tea'' (Some 99999.99))) \<and>
      validate_loop ([] @ [priced_raw ''Tea'' (Some 99999.99)]) [] =
        validate_loop [] [] @ [built (priced_raw ''Tea'' (Some 99999.99))]"
    using th l p by blast
  ultimately show ?thesis using e1 e2 b by (simp del: validate_loop.simps) simp
qed

text \<open>
  Claim C10. A raw record whose \<^verbatim>\<open>item_name\<close> has fewer than two characters fails
  validation and is skipped by the loop. Among records with valid prices, the accepted
  ones are exactly those with a name of at least two characters.
\<close>

theorem short_name_rejected:
  "(length (raw_item_name raw) < 2 \<longrightarrow>
      (\<exists>e. MenuItem_init raw = Inl e) \<and>
      validate_loop (xs @ raw # ys) acc = validate_loop (xs @ ys) acc) \<and>
   (list_all price_in_bounds (raw_price_fields raw) \<longrightarrow>
      (\<exists>m. MenuItem_init raw = Inr m) = (2 \<le> length (raw_item_name raw)))"
proof -
  have a: "(\<exists>e. MenuItem_init raw = Inl e) \<and>
      validate_loop (xs @ raw # ys) acc = validate_loop (xs @ ys) acc"
    if short: "length (raw_item_name raw) < 2"
  proof -
    obtain e where "MenuItem_init raw = Inl e"
      using MenuItem_init_short_name [OF short] by blast
    then show ?thesis using rejected_dropped by blast
  qed
  have b: "(\<exists>m. MenuItem_init raw = Inr m) = (2 \<le> length (raw_item_name raw))"
    if "list_all price_in_bounds (raw_price_fields raw)"
    using that by (simp add: MenuItem_init_Inr_iff)
  show ?thesis using a b by blast
qed

theorem short_name_rejected_witness:
  "MenuItem_init (priced_raw ''T'' (Some 10)) = Inl (ValidationError [''item_name'']) \<and>
   validate_loop [priced_raw ''T'' (Some 10)] [] = [] \<and>
   MenuItem_init (priced_raw ''Te'' (Some 10)) = Inr (priced_item ''Te'' (Some 10))"
proof -
  have e: "MenuItem_init (priced_raw ''T'' (Some 10)) = Inl (ValidationError [''item_name''])"
    by (simp add: MenuItem_init_def priced_raw_def item_name_field_def price_field_def
        validate_price_def field_errors_def lit_def)
  have s: "length (raw_item_name (priced_raw ''T'' (Some 10))) < 2"
    by (simp add: priced_raw_def lit_def)
  have l: "2 \<le> length (raw_item_name (priced_raw ''Te'' (Some 10)))"
    by (simp add: priced_raw_def lit_def)
  have p: "list_all price_in_bounds (raw_price_fields (priced_raw ''Te'' (Some 10)))"
    by (simp add: priced_raw_def raw_price_fields_def price_in_bounds_def)
  have "validate_loop ([] @ priced_raw ''T'' (Some 10) # []) [] = validate_loop ([] @ []) []"
    using short_name_rejected [of "priced_raw ''T'' (Some 10)" "[]" "[]" "[]"] s by blast
  then have "validate_loop [priced_raw ''T'' (Some 10)] [] = []"
    by (simp del: validate_loop.simps) simp
  moreover obtain m where m: "MenuItem_init (priced_raw ''Te'' (Some 10)) = Inr m"
    using short_name_rejected [of "priced_raw ''Te'' (Some 10)"] l p by blast
  moreover have "m = priced_item ''Te'' (Some 10)"
    using m by (simp add: MenuItem_init_Inr_iff built_def priced_raw_def priced_item_def
        clean_name_def split_def strip_def is_space_def lit_def)
  ultimately show ?thesis using e by simp
qed

section \<open>Properties of \<^verbatim>\<open>parse_menu\<close>\<close>

lemma retry_result_trace:
  "(fst (call_llm_with_retries call_llm chunk st) = None) =
     (CallOk \<notin> set (fst (snd (call_llm_with_retries call_llm chunk st))))"
  by (simp add: retry_cases split: prod.splits sum.splits)

lemma collect_loop_no_success:
  "CallOk \<notin> set (fst (snd (collect_loop call_llm chunks acc st))) \<Longrightarrow>
     fst (collect_loop call_llm chunks acc st) = acc"
proof (induction chunks arbitrary: acc st)
  case Nil
  show ?case by simp
next
  case (Cons chunk chunks)
  obtain parsed tr st' where r: "call_llm_with_retries call_llm chunk st = (parsed, tr, st')"
    by (cases "call_llm_with_retries call_llm chunk st") auto
  let ?acc' = "case parsed of None \<Rightarrow> acc | Some data \<Rightarrow> acc @ data"
  obtain all' tr' st'' where c: "collect_loop call_llm chunks ?acc' st' = (all', tr', st'')"
    by (cases "collect_loop call_llm chunks ?acc' st'") auto
  from Cons.prems r c have no: "CallOk \<notin> set tr" "CallOk \<notin> set tr'" by simp_all
  from no(1) r have "parsed = None"
    using retry_result_trace [of call_llm chunk st] by simp
  moreover from no(2) c have "all' = ?acc'" using Cons.IH [of ?acc' st'] by simp
  ultimately show ?case using r c by simp
qed

lemma parse_menu_run:
  "parse_menu nrm call_llm st T name =
     (Inr \<lparr>items = validate_loop (fst (collect_loop call_llm (chunk_text (nrm T)) [] st)) [],
           restaurant_name = Some (str_or name Unknown),
           total_items =
             int (length (validate_loop (fst (collect_loop call_llm (chunk_text (nrm T)) [] st)) [])),
           source_file = None,
           extraction_confidence =
             of_nat (length (validate_loop (fst (collect_loop call_llm (chunk_text (nrm T)) [] st)) [])) /
             of_nat (max 1 (length (fst (collect_loop call_llm (chunk_text (nrm T)) [] st)))),
           detected_currency = None, extraction_method = None\<rparr>,
      snd (collect_loop call_llm (chunk_text (nrm T)) [] st))"
proof -
  obtain all_items tr st' where c:
    "collect_loop call_llm (chunk_text (nrm T)) [] st = (all_items, tr, st')"
    by (cases "collect_loop call_llm (chunk_text (nrm T)) [] st") auto
  define v where "v = validate_loop all_items []"
  define n where "n = length v"
  define d where "d = max 1 (length all_items)"
  have le: "n \<le> d" and pos: "0 < d"
    using length_validate_loop [of all_items] by (simp_all add: n_def d_def v_def)
  have "(of_nat n :: rat) \<le> of_nat d"
    using le by (simp only: of_nat_le_iff)
  then have conf: "(of_nat n :: rat) / of_nat d \<le> 1"
    using pos by (simp add: divide_le_eq_1)
  have nonneg: "0 \<le> (of_nat n :: rat) / of_nat d"
    by simp
  have div: "true_div n d = Inr (of_nat n / of_nat d)"
    using pos by (simp add: true_div_def)
  have init: "MenuData_init (str_or name Unknown) v (int n) (of_nat n / of_nat d) =
      Inr \<lparr>items = v, restaurant_name = Some (str_or name Unknown), total_items = int n,
           source_file = None, extraction_confidence = of_nat n / of_nat d,
           detected_currency = None, extraction_method = None\<rparr>"
    using conf nonneg by (simp add: MenuData_init_def)
  show ?thesis
    by (simp only: parse_menu_def Let_def c fst_conv snd_conv prod.case
        v_def [symmetric] n_def [symmetric] d_def [symmetric] div sum.case init)
qed

lemma MenuItem_init_priced_raw:
  assumes "price_in_bounds p" and "clean_name (lit name) = lit name" and "2 \<le> length name"
  shows "MenuItem_init (priced_raw name p) = Inr (priced_item name p)"
proof -
  have "MenuItem_init (priced_raw name p) = Inr (built (priced_raw name p))"
    using assms by (intro MenuItem_init_ok)
      (simp_all add: priced_raw_def raw_price_fields_def price_in_bounds_def lit_def)
  moreover have "built (priced_raw name p) = priced_item name p"
    using assms(2) by (simp add: built_def priced_raw_def priced_item_def)
  ultimately show ?thesis by simp
qed

lemma has_any_price_priced_item: "has_any_price (priced_item name p) = (p \<noteq> None)"
  by (simp add: has_any_price_def priced_item_def)

lemma length_chunk_results: "length (chunk_results call_llm chunks st) = length chunks"
  by (induction chunks arbitrary: st) (auto split: prod.splits)

lemma collect_loop_returned:
  "fst (collect_loop call_llm chunks acc st) =
     acc @ returned_items (chunk_results call_llm chunks st)"
proof (induction chunks arbitrary: acc st)
  case Nil
  show ?case by (simp add: returned_items_def)
next
  case (Cons chunk chunks)
  obtain parsed tr st' where r: "call_llm_with_retries call_llm chunk st = (parsed, tr, st')"
    by (cases "call_llm_with_retries call_llm chunk st") auto
  let ?acc' = "case parsed of None \<Rightarrow> acc | Some data \<Rightarrow> acc @ data"
  have "fst (collect_loop call_llm (chunk # chunks) acc st) =
          fst (collect_loop call_llm chunks ?acc' st')"
    by (simp add: r split: prod.splits)
  also have "\<dots> = ?acc' @ returned_items (chunk_results call_llm chunks st')"
    by (rule Cons.IH)
  also have "\<dots> = acc @ returned_items (chunk_results call_llm (chunk # chunks) st)"
    by (cases parsed) (simp_all add: r returned_items_def)
  finally show ?case .
qed

lemma validate_loop_valid_priced: "validate_loop raws [] = valid_priced raws"
proof (induction raws)
  case Nil
  show ?case by (simp add: valid_priced_def)
next
  case (Cons raw raws)
  have "validate_loop (raw # raws) [] = validate_loop [raw] [] @ validate_loop raws []"
    by (rule validate_loop_Cons)
  also have "validate_loop [raw] [] = valid_priced [raw]"
    by (simp add: validate_loop_single valid_priced_def split: sum.splits)
  finally show ?case using Cons.IH by (simp add: valid_priced_def)
qed

lemma returned_items_all_None:
  "\<forall>parsed \<in> set results. parsed = None \<Longrightarrow> returned_items results = []"
  by (induction results) (auto simp: returned_items_def)

lemma chunk_text_spaced_text:
  "chunk_text spaced_text = [replicate 1999 97, replicate 2000 98, replicate 1000 98]"
proof -
  have len: "length spaced_text = 5000" by (simp add: spaced_text_def)
  have a: "take 2000 spaced_text = replicate 1999 97 @ [32]"
    by (simp add: spaced_text_def)
  have b: "take 2000 (drop 2000 spaced_text) = replicate 2000 98"
    by (simp add: spaced_text_def)
  have c: "drop 4000 spaced_text = replicate 1000 98"
    by (simp add: spaced_text_def)
  have sa: "strip (replicate 1999 97 @ [32]) = replicate 1999 97"
    by (simp add: strip_def is_space_def dropWhile_replicate)
  have sb: "strip (replicate n 98) = replicate n 98" for n
    by (simp add: strip_def is_space_def dropWhile_replicate)
  have "chunk_text spaced_text = map strip (segments spaced_text)"
    using len by (simp add: chunk_text_segments max_chars_def)
  then show ?thesis
    by (simp add: segments_5000 [OF len] a b c sa sb)
qed

lemma valid_priced_Cons:
  "valid_priced (raw # raws) =
     (case MenuItem_init raw of
        Inl e \<Rightarrow> valid_priced raws
      | Inr obj \<Rightarrow> if has_any_price obj then obj # valid_priced raws else valid_priced raws)"
  by (simp add: valid_priced_def split: sum.splits)

text \<open>
  Claim C1, amended. \<^verbatim>\<open>parse_menu\<close> always returns a \<^verbatim>\<open>MenuData\<close>, never an
  exception. There is one result of the retrying call per chunk; the raw items are
  those of all the results, in chunk order. The items returned are the validated,
  priced ones among them, \<^verbatim>\<open>total_items\<close> is their number, and
  \<^verbatim>\<open>extraction_confidence\<close> is that number divided by the maximum of 1 and the number
  of raw items; it is 0 exactly when no item is returned. When every chunk's extraction
  fails (every result is \<^verbatim>\<open>None\<close>; no call of the run returns), or when no raw item is
  returned, the result has no items and confidence 0. A text that is empty once
  normalised is one empty chunk, sent to the client like any other: the result has no
  items and confidence 0 exactly when the client's answer for that chunk holds no
  valid, priced item.
\<close>

theorem parse_menu_confidence:
  "(let chunks = chunk_text (nrm T);
        results = chunk_results call_llm chunks st;
        raw_items = returned_items results;
        valid_items = valid_priced raw_items;
        all_items = fst (collect_loop call_llm chunks [] st);
        tr = fst (snd (parse_menu nrm call_llm st T name))
    in \<exists>md. fst (parse_menu nrm call_llm st T name) = Inr md \<and>
         length results = length chunks \<and>
         all_items = raw_items \<and>
         items md = valid_items \<and>
         items md = validate_loop all_items [] \<and>
         total_items md = int (length (items md)) \<and>
         extraction_confidence md =
           of_nat (length valid_items) / of_nat (max 1 (length raw_items)) \<and>
         extraction_confidence md =
           of_nat (length (items md)) / of_nat (max 1 (length all_items)) \<and>
         restaurant_name md = Some (str_or name Unknown) \<and>
         source_file md = None \<and> detected_currency md = None \<and>
         extraction_method md = None \<and>
         (extraction_confidence md = 0) = (items md = []) \<and>
         ((\<forall>parsed \<in> set results. parsed = None) \<longrightarrow>
            items md = [] \<and> extraction_confidence md = 0) \<and>
         (CallOk \<notin> set tr \<longrightarrow> items md = [] \<and> extraction_confidence md = 0) \<and>
         (all_items = [] \<longrightarrow> items md = [] \<and> extraction_confidence md = 0) \<and>
         (nrm T = [] \<longrightarrow>
            chunks = [[]] \<and> results = [fst (call_llm_with_retries call_llm [] st)] \<and>
            (items md = [] \<and> extraction_confidence md = 0) =
              (valid_priced
                 (case fst (call_llm_with_retries call_llm [] st) of
                    None \<Rightarrow> [] | Some data \<Rightarrow> data) = [])))"
proof -
  define chunks where "chunks = chunk_text (nrm T)"
  define results where "results = chunk_results call_llm chunks st"
  define all_items where "all_items = fst (collect_loop call_llm chunks [] st)"
  define md where "md =
    \<lparr>items = validate_loop all_items [],
     restaurant_name = Some (str_or name Unknown),
     total_items = int (length (validate_loop all_items [])),
     source_file = None,
     extraction_confidence =
       of_nat (length (validate_loop all_items [])) / of_nat (max 1 (length all_items)),
     detected_currency = None, extraction_method = None\<rparr>"
  have run: "parse_menu nrm call_llm st T name =
      (Inr md, snd (collect_loop call_llm chunks [] st))"
    unfolding md_def all_items_def chunks_def by (rule parse_menu_run)
  have raw: "all_items = returned_items results"
    using collect_loop_returned [of call_llm chunks "[]" st]
    by (simp add: all_items_def results_def)
  have its: "items md = valid_priced all_items"
    by (simp add: md_def validate_loop_valid_priced)
  have conf: "extraction_confidence md =
      of_nat (length (items md)) / of_nat (max 1 (length all_items))"
    by (simp add: md_def)
  have zero: "(extraction_confidence md = 0) = (items md = [])"
  proof -
    have "(of_nat (max 1 (length all_items)) :: rat) \<noteq> 0"
      by (simp only: of_nat_eq_0_iff)
    then show ?thesis unfolding conf by simp
  qed
  have empty: "items md = [] \<and> extraction_confidence md = 0" if "all_items = []"
    using that by (simp add: md_def)
  have fails: "all_items = []"
    if "CallOk \<notin> set (fst (snd (parse_menu nrm call_llm st T name)))"
    using that collect_loop_no_success [of call_llm chunks "[]" st]
    by (simp add: run all_items_def)
  have nones: "all_items = []" if "\<forall>parsed \<in> set results. parsed = None"
    using that by (simp add: raw returned_items_all_None)
  have blank: "chunks = [[]] \<and> results = [fst (call_llm_with_retries call_llm [] st)] \<and>
            (items md = [] \<and> extraction_confidence md = 0) =
              (valid_priced
                 (case fst (call_llm_with_retries call_llm [] st) of
                    None \<Rightarrow> [] | Some data \<Rightarrow> data) = [])"
    if e: "nrm T = []"
  proof -
    have c: "chunks = [[]]" by (simp add: chunks_def e chunk_text_def)
    have r: "results = [fst (call_llm_with_retries call_llm [] st)]"
      by (simp add: results_def c split: prod.splits)
    have "all_items = (case fst (call_llm_with_retries call_llm [] st) of
                    None \<Rightarrow> [] | Some data \<Rightarrow> data)"
      by (simp add: raw r returned_items_def)
    then show ?thesis using c r its zero by simp
  qed
  have "fst (parse_menu nrm call_llm st T name) = Inr md \<and>
         length results = length chunks \<and>
         all_items = returned_items results \<and>
         items md = valid_priced (returned_items results) \<and>
         items md = validate_loop all_items [] \<and>
         total_items md = int (length (items md)) \<and>
         extraction_confidence md =
           of_nat (length (valid_priced (returned_items results))) /
           of_nat (max 1 (length (returned_items results))) \<and>
         extraction_confidence md =
           of_nat (length (items md)) / of_nat (max 1 (length all_items)) \<and>
         restaurant_name md = Some (str_or name Unknown) \<and>
         source_file md = None \<and> detected_currency md = None \<and>
         extraction_method md = None"
    using raw its conf
    by (simp add: run results_def length_chunk_results del: of_nat_max) (simp add: md_def)
  then show ?thesis
    unfolding Let_def chunks_def [symmetric] results_def [symmetric] all_items_def [symmetric]
    using zero empty fails nones blank by blast
qed

theorem parse_menu_confidence_witness:
  "parse_menu id scripted cafe_script spaced_text (Some (lit ''Cafe'')) =
     (Inr \<lparr>items = [priced_item ''Tea'' (Some 10), priced_item ''Tea'' (Some 5)],
           restaurant_name = Some (lit ''Cafe''), total_items = 2, source_file = None,
           extraction_confidence = 1 / 2, detected_currency = None,
           extraction_method = None\<rparr>,
      [CallOk, CallFailed 1, Slept 1, CallFailed 2, Slept 2, CallFailed 3, CallOk], []) \<and>
   parse_menu id scripted [] [] None =
     (Inr \<lparr>items = [], restaurant_name = Some Unknown, total_items = 0,
           source_file = None, extraction_confidence = 0, detected_currency = None,
           extraction_method = None\<rparr>,
      [CallFailed 1, Slept 1, CallFailed 2, Slept 2, CallFailed 3], [])"
proof -
  have tea: "MenuItem_init (priced_raw ''Tea'' p) = Inr (priced_item ''Tea'' p)"
    if "price_in_bounds p" for p
    using that by (intro MenuItem_init_priced_raw) (simp_all add: clean_name_Tea)
  obtain e where short: "MenuItem_init (priced_raw ''T'' (Some 3)) = Inl e"
    using MenuItem_init_short_name [of "priced_raw ''T'' (Some 3)"]
    by (auto simp: priced_raw_def lit_def)
  have res: "chunk_results scripted
        [replicate 1999 97, replicate 2000 98, replicate 1000 98] cafe_script =
      [Some [priced_raw ''Tea'' (Some 10), priced_raw ''Tea'' None], None,
       Some [priced_raw ''Tea'' (Some 5), priced_raw ''T'' (Some 3)]]"
    by (simp add: cafe_script_def retry_cases)
  have raws: "returned_items
      [Some [priced_raw ''Tea'' (Some 10), priced_raw ''Tea'' None], None,
       Some [priced_raw ''Tea'' (Some 5), priced_raw ''T'' (Some 3)]] =
      [priced_raw ''Tea'' (Some 10), priced_raw ''Tea'' None,
       priced_raw ''Tea'' (Some 5), priced_raw ''T'' (Some 3)]"
    by (simp add: returned_items_def)
  have valid: "valid_priced
      [priced_raw ''Tea'' (Some 10), priced_raw ''Tea'' None,
       priced_raw ''Tea'' (Some 5), priced_raw ''T'' (Some 3)] =
      [priced_item ''Tea'' (Some 10), priced_item ''Tea'' (Some 5)]"
    by (simp add: valid_priced_Cons tea short price_in_bounds_def has_any_price_priced_item)
       (simp add: valid_priced_def)
  obtain md where md: "fst (parse_menu id scripted cafe_script spaced_text (Some (lit ''Cafe''))) = Inr md"
    "items md = [priced_item ''Tea'' (Some 10), priced_item ''Tea'' (Some 5)]"
    "total_items md = int (length (items md))"
    "extraction_confidence md = 1 / 2"
    "restaurant_name md = Some (str_or (Some (lit ''Cafe'')) Unknown)"
    "source_file md = None" "detected_currency md = None" "extraction_method md = None"
    using parse_menu_confidence [where nrm = id and call_llm = scripted and st = cafe_script
        and T = spaced_text and name = "Some (lit ''Cafe'')"]
    unfolding Let_def id_apply chunk_text_spaced_text res raws valid
    by auto
  have rec: "md = \<lparr>items = [priced_item ''Tea'' (Some 10), priced_item ''Tea'' (Some 5)],
           restaurant_name = Some (lit ''Cafe''), total_items = 2, source_file = None,
           extraction_confidence = 1 / 2, detected_currency = None,
           extraction_method = None\<rparr>"
    using md by (cases md) (simp add: str_or_def lit_def)
  have tr: "snd (parse_menu id scripted cafe_script spaced_text (Some (lit ''Cafe''))) =
      ([CallOk, CallFailed 1, Slept 1, CallFailed 2, Slept 2, CallFailed 3, CallOk], [])"
    by (simp add: parse_menu_def Let_def chunk_text_spaced_text cafe_script_def retry_cases
        split: prod.splits)
  have first: "parse_menu id scripted cafe_script spaced_text (Some (lit ''Cafe'')) =
     (Inr \<lparr>items = [priced_item ''Tea'' (Some 10), priced_item ''Tea'' (Some 5)],
           restaurant_name = Some (lit ''Cafe''), total_items = 2, source_file = None,
           extraction_confidence = 1 / 2, detected_currency = None,
           extraction_method = None\<rparr>,
      [CallOk, CallFailed 1, Slept 1, CallFailed 2, Slept 2, CallFailed 3, CallOk], [])"
    using md(1) rec tr by (simp add: prod_eq_iff)
  have tr0: "snd (parse_menu id scripted [] [] None) =
      ([CallFailed 1, Slept 1, CallFailed 2, Slept 2, CallFailed 3], [])"
    by (simp add: parse_menu_def Let_def chunk_text_def retry_cases split: prod.splits)
  then have no: "CallOk \<notin> set (fst (snd (parse_menu id scripted [] [] None)))"
    by simp
  obtain md0 where md0: "fst (parse_menu id scripted [] [] None) = Inr md0"
    "items md0 = []" "extraction_confidence md0 = 0"
    "total_items md0 = int (length (items md0))"
    "restaurant_name md0 = Some (str_or None Unknown)"
    "source_file md0 = None" "detected_currency md0 = None" "extraction_method md0 = None"
    using parse_menu_confidence [where nrm = id and call_llm = scripted and st = "[]"
        and T = "[]" and name = None] no
    unfolding Let_def by blast
  have rec0: "md0 = \<lparr>items = [], restaurant_name = Some Unknown, total_items = 0,
           source_file = None, extraction_confidence = 0, detected_currency = None,
           extraction_method = None\<rparr>"
    using md0 by (cases md0) (simp add: str_or_def)
  have second: "parse_menu id scripted [] [] None =
     (Inr \<lparr>items = [], restaurant_name = Some Unknown, total_items = 0,
           source_file = None, extraction_confidence = 0, detected_currency = None,
           extraction_method = None\<rparr>,
      [CallFailed 1, Slept 1, CallFailed 2, Slept 2, CallFailed 3], [])"
    using md0(1) rec0 tr0 by (simp add: prod_eq_iff)
  show ?thesis using first second by (rule conjI)
qed

text \<open>
  Claim C1, as stated, fails for the empty input: the empty text is one empty chunk,
  which is sent to the extraction service like any other; when the service answers
  with a valid, priced item, the result has one item and confidence 1.
\<close>

theorem parse_menu_empty_counterexample:
  "parse_menu id scripted [Inr [priced_raw ''Tea'' (Some 10)]] [] None =
     (Inr \<lparr>items = [priced_item ''Tea'' (Some 10)], restaurant_name = Some Unknown,
           total_items = 1, source_file = None, extraction_confidence = 1,
           detected_currency = None, extraction_method = None\<rparr>,
      [CallOk], [])"
proof -
  have run: "collect_loop scripted (chunk_text []) [] [Inr [priced_raw ''Tea'' (Some 10)]] =
      ([priced_raw ''Tea'' (Some 10)], [CallOk], [])"
    by (simp add: chunk_text_def retry_cases)
  have "MenuItem_init (priced_raw ''Tea'' (Some 10)) = Inr (priced_item ''Tea'' (Some 10))"
    by (rule MenuItem_init_priced_raw) (simp_all add: price_in_bounds_def clean_name_Tea)
  then have v: "validate_loop [priced_raw ''Tea'' (Some 10)] [] = [priced_item ''Tea'' (Some 10)]"
    by (simp add: has_any_price_priced_item)
  show ?thesis
    using parse_menu_run [of id scripted "[Inr [priced_raw ''Tea'' (Some 10)]]" "[]" None]
    by (simp add: run v str_or_def del: validate_loop.simps)
qed

section \<open>Records without a price\<close>

lemma clean_name_Water: "clean_name (lit ''Water'') = lit ''Water''"
  by (simp add: clean_name_def split_def strip_def is_space_def lit_def)

lemma unpriced_single:
  assumes "\<forall>v \<in> set (raw_price_fields raw). v = None"
  shows "validate_loop [raw] [] = []"
proof (cases "MenuItem_init raw")
  case (Inl e)
  then show ?thesis by (simp add: validate_loop_single)
next
  case (Inr m)
  then have "m = built raw" by (simp add: MenuItem_init_Inr_iff)
  then have "\<not> has_any_price m" using assms by (simp add: has_any_price_built)
  with Inr show ?thesis by (simp add: validate_loop_single)
qed

lemma parse_menu_items:
  "fst (parse_menu nrm call_llm st T name) = Inr md \<Longrightarrow> m \<in> set (items md) \<Longrightarrow>
     has_any_price m"
proof -
  assume r: "fst (parse_menu nrm call_llm st T name) = Inr md" and m: "m \<in> set (items md)"
  from r have "items md =
      validate_loop (fst (collect_loop call_llm (chunk_text (nrm T)) [] st)) []"
    by (auto simp: parse_menu_run)
  with m show ?thesis using validate_loop_member by metis
qed

text \<open>
  Claim C8. A raw record whose six price properties are all null is never retained:
  the validation loop goes on as if the record were not there, the \<^verbatim>\<open>MenuItem\<close> built
  from it has no price, and it is not among the items \<^verbatim>\<open>parse_menu\<close> returns, all of
  which have a price.
\<close>

theorem unpriced_never_retained:
  "((\<forall>v \<in> set (raw_price_fields raw). v = None) \<longrightarrow>
      validate_loop (xs @ raw # ys) acc = validate_loop (xs @ ys) acc \<and>
      (MenuItem_init raw = Inr m \<longrightarrow>
         \<not> has_any_price m \<and>
         (fst (parse_menu nrm call_llm st T name) = Inr md \<longrightarrow> m \<notin> set (items md)))) \<and>
   (fst (parse_menu nrm call_llm st T name) = Inr md \<longrightarrow>
      (\<forall>kept \<in> set (items md). has_any_price kept))"
proof -
  have all: "\<forall>kept \<in> set (items md). has_any_price kept"
    if "fst (parse_menu nrm call_llm st T name) = Inr md"
    by (intro ballI) (rule parse_menu_items [OF that])
  have drop: "validate_loop (xs @ raw # ys) acc = validate_loop (xs @ ys) acc"
    if "\<forall>v \<in> set (raw_price_fields raw). v = None"
    using unpriced_single [OF that] by (rule validate_loop_drop)
  have np: "\<not> has_any_price m"
    if "\<forall>v \<in> set (raw_price_fields raw). v = None" and "MenuItem_init raw = Inr m"
    using that by (simp add: MenuItem_init_Inr_iff has_any_price_built)
  show ?thesis using all drop np by blast
qed

theorem unpriced_never_retained_witness:
  "MenuItem_init (priced_raw ''Tea'' None) = Inr (priced_item ''Tea'' None) \<and>
   validate_loop [priced_raw ''Tea'' None, priced_raw ''Tea'' (Some 10)] [] =
     [priced_item ''Tea'' (Some 10)] \<and>
   parse_menu id scripted [Inr [priced_raw ''Tea'' None, priced_raw ''Tea'' (Some 10)]]
       (lit ''Tea 10'') None =
     (Inr \<lparr>items = [priced_item ''Tea'' (Some 10)], restaurant_name = Some Unknown,
           total_items = 1, source_file = None, extraction_confidence = 1 / 2,
           detected_currency = None, extraction_method = None\<rparr>,
      [CallOk], [])"
proof -
  have none: "\<forall>v \<in> set (raw_price_fields (priced_raw ''Tea'' None)). v = None"
    by (simp add: raw_price_fields_def priced_raw_def)
  have i0: "MenuItem_init (priced_raw ''Tea'' None) = Inr (priced_item ''Tea'' None)"
    by (rule MenuItem_init_priced_raw) (simp_all add: price_in_bounds_def clean_name_Tea)
  have i1: "MenuItem_init (priced_raw ''Tea'' (Some 10)) = Inr (priced_item ''Tea'' (Some 10))"
    by (rule MenuItem_init_priced_raw) (simp_all add: price_in_bounds_def clean_name_Tea)
  have "validate_loop ([] @ priced_raw ''Tea'' None # [priced_raw ''Tea'' (Some 10)]) [] =
      validate_loop ([] @ [priced_raw ''Tea'' (Some 10)]) []"
    using unpriced_never_retained [where raw = "priced_raw ''Tea'' None" and xs = "[]"
        and ys = "[priced_raw ''Tea'' (Some 10)]" and acc = "[]"
        and m = "priced_item ''Tea'' None" and nrm = id and call_llm = scripted
        and st = "[]" and T = "[]" and name = None and md = "menu_of []"] none
    by (simp del: validate_loop.simps)
  moreover have "validate_loop [priced_raw ''Tea'' (Some 10)] [] = [priced_item ''Tea'' (Some 10)]"
    using i1 by (simp add: has_any_price_priced_item)
  ultimately have v: "validate_loop [priced_raw ''Tea'' None, priced_raw ''Tea'' (Some 10)] [] =
      [priced_item ''Tea'' (Some 10)]"
    by (simp del: validate_loop.simps)
  have run: "collect_loop scripted (chunk_text (lit ''Tea 10'')) []
        [Inr [priced_raw ''Tea'' None, priced_raw ''Tea'' (Some 10)]] =
      ([priced_raw ''Tea'' None, priced_raw ''Tea'' (Some 10)], [CallOk], [])"
    by (simp add: chunk_text_def max_chars_def lit_def retry_cases)
  have "parse_menu id scripted [Inr [priced_raw ''Tea'' None, priced_raw ''Tea'' (Some 10)]]
       (lit ''Tea 10'') None =
     (Inr \<lparr>items = [priced_item ''Tea'' (Some 10)], restaurant_name = Some Unknown,
           total_items = 1, source_file = None, extraction_confidence = 1 / 2,
           detected_currency = None, extraction_method = None\<rparr>,
      [CallOk], [])"
    using parse_menu_run [of id scripted
        "[Inr [priced_raw ''Tea'' None, priced_raw ''Tea'' (Some 10)]]" "lit ''Tea 10''" None]
    by (simp add: run v str_or_def del: validate_loop.simps)
  with i0 v show ?thesis by blast
qed

section \<open>Primary price and summary\<close>

text \<open>
  What the code computes. \<^verbatim>\<open>get_primary_price\<close> returns the first truthy price in
  priority order, and \<^verbatim>\<open>small_price\<close> when there is none; it is the first non-null
  price whenever no price field is 0. \<^verbatim>\<open>get_summary\<close> counts every item under its
  category, or under \<^verbatim>\<open>"Uncategorized"\<close> when the category is missing or empty, and
  computes the price range over the non-zero primary prices of the priced items.
\<close>

lemma get_primary_price_first_truthy:
  "get_primary_price self =
     (case filter truthy (price_fields self) of [] \<Rightarrow> small_price self | v # vs \<Rightarrow> v)"
  by (simp add: get_primary_price_def py_or_def price_fields_def)

lemma get_primary_price_first_non_null:
  assumes "Some 0 \<notin> set (price_fields self)"
  shows "get_primary_price self =
     (case filter (\<lambda>v. v \<noteq> None) (price_fields self) of [] \<Rightarrow> None | v # vs \<Rightarrow> v)"
proof -
  have "truthy v = (v \<noteq> None)" if v: "v \<in> set (price_fields self)" for v
  proof (cases v)
    case None
    then show ?thesis by (simp add: truthy_def)
  next
    case (Some y)
    with v assms have "y \<noteq> 0" by auto
    with Some show ?thesis by (simp add: truthy_def)
  qed
  then have "filter truthy (price_fields self) = filter (\<lambda>v. v \<noteq> None) (price_fields self)"
    by (intro filter_cong) auto
  moreover have "small_price self = None" if "filter (\<lambda>v. v \<noteq> None) (price_fields self) = []"
    using that by (auto simp: price_fields_def split: if_splits)
  ultimately show ?thesis
    by (simp add: get_primary_price_first_truthy split: list.splits)
qed

lemma summary_loop_step:
  "\<exists>n' pr'. summary_loop (item # rest) cats n pr =
     summary_loop rest
       (cats(category_key item \<mapsto>
          (case cats (category_key item) of None \<Rightarrow> 0 | Some j \<Rightarrow> j) + 1)) n' pr'"
proof (cases "has_any_price item")
  case False
  then show ?thesis by (simp add: Let_def) blast
next
  case True
  show ?thesis
  proof (cases "get_primary_price item")
    case None
    with True show ?thesis by (simp add: Let_def) blast
  next
    case (Some x)
    with True show ?thesis by (cases "x = 0") (simp_all add: Let_def, blast+)
  qed
qed

lemma summary_loop_categories:
  "fst (summary_loop its cats n pr) k =
     (case cats k of
        None \<Rightarrow>
          if \<exists>i \<in> set its. category_key i = k
          then Some (length (filter (\<lambda>i. category_key i = k) its)) else None
      | Some j \<Rightarrow> Some (j + length (filter (\<lambda>i. category_key i = k) its)))"
proof (induction its arbitrary: cats n pr)
  case Nil
  show ?case by (simp split: option.splits)
next
  case (Cons item rest)
  obtain n' pr' where step: "summary_loop (item # rest) cats n pr =
     summary_loop rest
       (cats(category_key item \<mapsto>
          (case cats (category_key item) of None \<Rightarrow> 0 | Some j \<Rightarrow> j) + 1)) n' pr'"
    using summary_loop_step by blast
  show ?case
    unfolding step Cons.IH by (auto split: option.splits)
qed

lemma get_summary_categories:
  "summary_categories (get_summary md) k =
     (if \<exists>i \<in> set (items md). category_key i = k
      then Some (length (filter (\<lambda>i. category_key i = k) (items md))) else None)"
proof -
  obtain cats n pr where l: "summary_loop (items md) Map.empty 0 [] = (cats, n, pr)"
    by (cases "summary_loop (items md) Map.empty 0 []") auto
  have "cats k = fst (summary_loop (items md) Map.empty 0 []) k" by (simp add: l)
  also have "\<dots> = (if \<exists>i \<in> set (items md). category_key i = k
      then Some (length (filter (\<lambda>i. category_key i = k) (items md))) else None)"
    by (simp add: summary_loop_categories)
  finally show ?thesis by (simp add: get_summary_def l)
qed

lemma category_key_None: "category item = None \<Longrightarrow> category_key item = Uncategorized"
  by (simp add: category_key_def str_or_def)

lemma summary_loop_prices:
  "snd (snd (summary_loop its cats n pr)) =
     pr @ concat (map (\<lambda>item.
       if has_any_price item then
         (case get_primary_price item of None \<Rightarrow> [] | Some x \<Rightarrow> if x \<noteq> 0 then [x] else [])
       else []) its)"
proof (induction its arbitrary: cats n pr)
  case Nil
  show ?case by simp
next
  case (Cons item rest)
  show ?case
    by (simp add: Let_def Cons.IH split: option.splits)
qed

lemma get_summary_price_range:
  "summary_price_range (get_summary md) =
     (let price_range = concat (map (\<lambda>item.
            if has_any_price item then
              (case get_primary_price item of
                 None \<Rightarrow> [] | Some x \<Rightarrow> if x \<noteq> 0 then [x] else [])
            else []) (items md))
      in \<lparr>stats_min = min_or_none price_range, stats_max = max_or_none price_range,
          stats_avg = avg_or_none price_range\<rparr>)"
proof -
  obtain cats n pr where l: "summary_loop (items md) Map.empty 0 [] = (cats, n, pr)"
    by (cases "summary_loop (items md) Map.empty 0 []") auto
  have pr: "pr = concat (map (\<lambda>item.
            if has_any_price item then
              (case get_primary_price item of
                 None \<Rightarrow> [] | Some x \<Rightarrow> if x \<noteq> 0 then [x] else [])
            else []) (items md))"
    using summary_loop_prices [of "items md" Map.empty 0 "[]"] by (simp add: l)
  show ?thesis unfolding get_summary_def l Let_def pr [symmetric] by simp
qed

lemma clean_name_collapses:
  "clean_name (lit ''Butter   Chicken'') = lit ''Butter Chicken''"
  by (simp add: clean_name_def split_def strip_def is_space_def lit_def)

text \<open>
  Claim C2 does not hold of the code. A record with \<^verbatim>\<open>price = 0\<close> and
  \<^verbatim>\<open>full_plate_price = 12\<close> passes validation, and \<^verbatim>\<open>get_primary_price\<close> returns 12
  for it, not the 0 of the highest-priority populated field; with \<^verbatim>\<open>price = 0\<close> alone
  it returns \<^verbatim>\<open>None\<close>.
\<close>

theorem get_primary_price_skips_zero:
  "MenuItem_init ((priced_raw ''Water'' (Some 0))\<lparr>raw_full_plate_price := Some 12\<rparr>) =
     Inr ((priced_item ''Water'' (Some 0))\<lparr>full_plate_price := Some 12\<rparr>) \<and>
   get_primary_price ((priced_item ''Water'' (Some 0))\<lparr>full_plate_price := Some 12\<rparr>) =
     Some 12 \<and>
   MenuItem_init (priced_raw ''Water'' (Some 0)) = Inr (priced_item ''Water'' (Some 0)) \<and>
   get_primary_price (priced_item ''Water'' (Some 0)) = None"
proof -
  have a: "MenuItem_init ((priced_raw ''Water'' (Some 0))\<lparr>raw_full_plate_price := Some 12\<rparr>) =
     Inr (built ((priced_raw ''Water'' (Some 0))\<lparr>raw_full_plate_price := Some 12\<rparr>))"
    by (rule MenuItem_init_ok)
       (simp_all add: priced_raw_def raw_price_fields_def price_in_bounds_def lit_def)
  have b: "built ((priced_raw ''Water'' (Some 0))\<lparr>raw_full_plate_price := Some 12\<rparr>) =
      (priced_item ''Water'' (Some 0))\<lparr>full_plate_price := Some 12\<rparr>"
    by (simp add: built_def priced_raw_def priced_item_def clean_name_Water)
  have c: "MenuItem_init (priced_raw ''Water'' (Some 0)) = Inr (priced_item ''Water'' (Some 0))"
    by (rule MenuItem_init_priced_raw) (simp_all add: price_in_bounds_def clean_name_Water)
  have d: "get_primary_price ((priced_item ''Water'' (Some 0))\<lparr>full_plate_price := Some 12\<rparr>) =
     Some 12"
    by (simp add: get_primary_price_def py_or_def truthy_def priced_item_def)
  have e: "get_primary_price (priced_item ''Water'' (Some 0)) = None"
    by (simp add: get_primary_price_def py_or_def truthy_def priced_item_def)
  show ?thesis using a b c d e by simp
qed

text \<open>
  Claim C9 does not hold of the code. In a menu of two priced items, one with price 0
  and one with price 10, \<^verbatim>\<open>get_summary\<close> counts two items with prices but computes the
  price range over the second only: minimum, maximum and average are all 10.
\<close>

theorem get_summary_skips_zero_price:
  "summary_items_with_prices
     (get_summary (menu_of [priced_item ''Water'' (Some 0), priced_item ''Tea'' (Some 10)])) = 2 \<and>
   summary_price_range
     (get_summary (menu_of [priced_item ''Water'' (Some 0), priced_item ''Tea'' (Some 10)])) =
     \<lparr>stats_min = Some 10, stats_max = Some 10, stats_avg = Some 10\<rparr>"
proof -
  have w: "has_any_price (priced_item ''Water'' (Some 0))"
    and t: "has_any_price (priced_item ''Tea'' (Some 10))"
    by (simp_all add: has_any_price_priced_item)
  have pw: "get_primary_price (priced_item ''Water'' (Some 0)) = None"
    and pt: "get_primary_price (priced_item ''Tea'' (Some 10)) = Some 10"
    by (simp_all add: get_primary_price_def py_or_def truthy_def priced_item_def)
  have k: "category_key (priced_item name p) = Uncategorized" for name p
    by (simp add: category_key_def str_or_def priced_item_def)
  have loop:
    "summary_loop [priced_item ''Water'' (Some 0), priced_item ''Tea'' (Some 10)] Map.empty 0 [] =
       ([Uncategorized \<mapsto> 2], 2, [10])"
    by (simp add: w t pw pt k Let_def numeral_2_eq_2)
  show ?thesis
    by (simp add: get_summary_def menu_of_def loop min_or_none_def max_or_none_def
        avg_or_none_def del: summary_loop.simps)
qed

end
